theory Spec2Isabelle
  imports Main "HOL-Library.Word"
begin

section \<open>The custodian's pegging engine (slidechain)\<close>

text \<open>
  A shallow embedding of \<^verbatim>\<open>slidechain/export.go\<close> (the peg-out engine and the
  builder of the peg-out transaction) and of the watchers \<^verbatim>\<open>watchPegIns\<close>,
  \<^verbatim>\<open>watchExports\<close> and \<^verbatim>\<open>watchPegOuts\<close>.

  Go values are modelled as follows. A \<^verbatim>\<open>[]byte\<close> is a list of 8-bit words, a Go
  \<^verbatim>\<open>string\<close> is a \<^typ>\<open>string\<close>, an \<^verbatim>\<open>int64\<close> is a 64-bit word. An \<^verbatim>\<open>error\<close>
  result is an option or a sum. \<^verbatim>\<open>log.Fatalf\<close> (which exits the process) and a
  run-time panic are outcomes of their own: the store keeps what was written before.
  The relational store is held in memory, one list of rows per table. A query or
  an update of the peg-out engine and of the peg-in watcher can fail as a whole
  (the context is cancelled, the store cannot be reached), which the code answers
  with \<^verbatim>\<open>log.Fatalf\<close>: whether an execution fails is a parameter. The two ledgers
  and the libraries that decode (JSON, XDR, strkey) are parameters as well.
\<close>

type_synonym byte = "8 word"
type_synonym bytes = "byte list"

subsection \<open>The export record and its peg-out state\<close>

text \<open>\<^verbatim>\<open>type pegOutState int\<close> with the constants 0 to 3 in this order.\<close>

datatype pegOutState = pegOutNotYet | pegOutOK | pegOutRetry | pegOutFail

text \<open>
  \<^verbatim>\<open>type pegOut struct\<close>. The fields \<^verbatim>\<open>TxID\<close> and \<^verbatim>\<open>State\<close> carry the tag
  \<^verbatim>\<open>json:"-"\<close>: they are not part of the reference payload.
\<close>

record pegOut =
  TxID :: bytes
  AssetXDR :: bytes
  TempAddr :: string
  Seqnum :: "64 word"
  Exporter :: string
  Amount :: "64 word"
  Anchor :: bytes
  Pubkey :: bytes
  State :: pegOutState

text \<open>A row of the table \<^verbatim>\<open>exports (txid, pegout_json, pegged_out)\<close>.\<close>

record export_row =
  txid :: bytes
  pegout_json :: bytes
  pegged_out :: pegOutState

subsection \<open>Main-ledger assets and the transaction builder\<close>

text \<open>
  \<^verbatim>\<open>xdr.AccountId\<close> is an ed25519 public key; \<^verbatim>\<open>xdr.Asset\<close> is a type tag with one
  pointer per credit arm (\<^verbatim>\<open>nil\<close> is \<^const>\<open>None\<close>). \<^verbatim>\<open>xdr.AssetType\<close> is an
  \<^verbatim>\<open>int32\<close>: a value that is none of the three named constants is
  \<open>AssetTypeOther\<close>.
\<close>

type_synonym AccountId = bytes

datatype AssetType =
  AssetTypeNative | AssetTypeCreditAlphanum4 | AssetTypeCreditAlphanum12
  | AssetTypeOther int

record AlphaNum =
  AssetCode :: string
  Issuer :: AccountId

record Asset =
  Type :: AssetType
  AlphaNum4 :: "AlphaNum option"
  AlphaNum12 :: "AlphaNum option"

text \<open>
  The amount strings handed to the builder, as the calls that produce them:
  \<^verbatim>\<open>xlm.Amount(amount).HorizonString()\<close> and \<^verbatim>\<open>strconv.FormatInt(amount, 10)\<close>.
\<close>

datatype amount_string = HorizonString "64 word" | FormatInt "64 word"

text \<open>
  The values of package \<^verbatim>\<open>build\<close> that \<^verbatim>\<open>buildPegOutTx\<close> constructs. A
  transaction builder is the list of mutators given to \<^verbatim>\<open>b.Transaction\<close>, in call
  order; \<^verbatim>\<open>var paymentOp b.PaymentBuilder\<close> is \<open>PaymentBuilder_zero\<close>.
\<close>

datatype OpMutator =
  OpSourceAccount string
  | Destination string
  | NativeAmount amount_string
  | CreditAmount string string amount_string

datatype PaymentBuilder = PaymentBuilder_zero | Payment "OpMutator list"

datatype TransactionMutator =
  Network string
  | SourceAccount string
  | Sequence "64 word"
  | BaseFee nat
  | AccountMerge "OpMutator list"
  | PaymentOp PaymentBuilder

type_synonym TransactionBuilder = "TransactionMutator list"

datatype 'a go = Return 'a | Panicked | Fatal

definition baseFee :: nat where
  "baseFee = 100"

text \<open>
  \<^verbatim>\<open>b.Transaction\<close> of package \<^verbatim>\<open>build\<close> (a library, not among the sources)
  applies the mutators in call order and returns the first error one of them
  reports. \<^verbatim>\<open>Network\<close>, \<^verbatim>\<open>Sequence\<close> and \<^verbatim>\<open>BaseFee\<close> store their value and report
  none. \<^verbatim>\<open>SourceAccount\<close> and \<^verbatim>\<open>Destination\<close> report an error on a text that is
  neither an address nor a seed (\<open>bad_address\<close>, the check of package
  \<^verbatim>\<open>keypair\<close>); an amount mutator
  reports one on an amount, asset code or issuer it cannot take (\<open>bad_amount\<close>).
  \<^verbatim>\<open>b.Payment\<close> and \<^verbatim>\<open>b.AccountMerge\<close> keep the first error of their own mutators
  in the field \<^verbatim>\<open>Err\<close> of the builder, and the builder reports it when it is
  applied to the transaction. The zero-valued \<^verbatim>\<open>PaymentBuilder\<close> has \<^verbatim>\<open>Err == nil\<close>
  and \<^verbatim>\<open>PathPayment == false\<close>: applied to the transaction it appends a payment
  operation of zero values and reports no error.
\<close>

fun op_mutator_error :: "(string \<Rightarrow> bool) \<Rightarrow> (OpMutator \<Rightarrow> bool) \<Rightarrow> OpMutator \<Rightarrow> bool" where
  "op_mutator_error bad_address bad_amount (OpSourceAccount a) = bad_address a"
| "op_mutator_error bad_address bad_amount (Destination a) = bad_address a"
| "op_mutator_error bad_address bad_amount (NativeAmount x) = bad_amount (NativeAmount x)"
| "op_mutator_error bad_address bad_amount (CreditAmount code issuer x) =
     bad_amount (CreditAmount code issuer x)"

fun mutator_error :: "(string \<Rightarrow> bool) \<Rightarrow> (OpMutator \<Rightarrow> bool) \<Rightarrow> TransactionMutator \<Rightarrow> bool" where
  "mutator_error bad_address bad_amount (Network passphrase) = False"
| "mutator_error bad_address bad_amount (SourceAccount a) = bad_address a"
| "mutator_error bad_address bad_amount (Sequence n) = False"
| "mutator_error bad_address bad_amount (BaseFee n) = False"
| "mutator_error bad_address bad_amount (AccountMerge muts) =
     list_ex (op_mutator_error bad_address bad_amount) muts"
| "mutator_error bad_address bad_amount (PaymentOp PaymentBuilder_zero) = False"
| "mutator_error bad_address bad_amount (PaymentOp (Payment muts)) =
     list_ex (op_mutator_error bad_address bad_amount) muts"

definition Transaction ::
  "(string \<Rightarrow> bool) \<Rightarrow> (OpMutator \<Rightarrow> bool) \<Rightarrow> TransactionMutator list \<Rightarrow> unit + TransactionBuilder"
where
  "Transaction bad_address bad_amount muts =
     (if list_ex (mutator_error bad_address bad_amount) muts then Inl () else Inr muts)"

text \<open>
  \<^verbatim>\<open>buildPegOutTx\<close>. The sequence number is \<^verbatim>\<open>uint64(seqnum) + 1\<close>: the
  conversion keeps the 64 bits and the addition wraps. \<open>address\<close> is
  \<^verbatim>\<open>xdr.AccountId.Address\<close>. Dereferencing a \<^verbatim>\<open>nil\<close> credit arm panics. The switch
  has three cases and no default: for any other asset type \<^verbatim>\<open>paymentOp\<close> stays
  the zero value of its declaration.
\<close>

definition paymentOp_of ::
  "(AccountId \<Rightarrow> string) \<Rightarrow> string \<Rightarrow> string \<Rightarrow> Asset \<Rightarrow> 64 word \<Rightarrow> PaymentBuilder go"
where
  "paymentOp_of address custodianAddr exporterAddr asset amount =
    (case Type asset of
       AssetTypeNative \<Rightarrow>
         Return (Payment [OpSourceAccount custodianAddr, Destination exporterAddr,
                          NativeAmount (HorizonString amount)])
     | AssetTypeCreditAlphanum4 \<Rightarrow>
         (case AlphaNum4 asset of
            None \<Rightarrow> Panicked
          | Some a \<Rightarrow>
              Return (Payment [OpSourceAccount custodianAddr, Destination exporterAddr,
                               CreditAmount (AssetCode a) (address (Issuer a)) (FormatInt amount)]))
     | AssetTypeCreditAlphanum12 \<Rightarrow>
         (case AlphaNum12 asset of
            None \<Rightarrow> Panicked
          | Some a \<Rightarrow>
              Return (Payment [OpSourceAccount custodianAddr, Destination exporterAddr,
                               CreditAmount (AssetCode a) (address (Issuer a)) (FormatInt amount)]))
     | AssetTypeOther _ \<Rightarrow> Return PaymentBuilder_zero)"

definition buildPegOutTx ::
  "(AccountId \<Rightarrow> string) \<Rightarrow> (string \<Rightarrow> bool) \<Rightarrow> (OpMutator \<Rightarrow> bool) \<Rightarrow>
   string \<Rightarrow> string \<Rightarrow> string \<Rightarrow> string \<Rightarrow> Asset \<Rightarrow> 64 word \<Rightarrow> 64 word \<Rightarrow>
   (unit + TransactionBuilder) go"
where
  "buildPegOutTx address bad_address bad_amount custodianAddr exporterAddr tempAddr network asset
       amount seqnum =
    (case paymentOp_of address custodianAddr exporterAddr asset amount of
       Panicked \<Rightarrow> Panicked
     | Fatal \<Rightarrow> Fatal
     | Return paymentOp \<Rightarrow>
         (let mergeAccountOp = AccountMerge [Destination exporterAddr]
          in Return (Transaction bad_address bad_amount
               [Network network, SourceAccount tempAddr, Sequence (seqnum + 1),
                BaseFee baseFee, mergeAccountOp, PaymentOp paymentOp])))"

text \<open>The operations of a transaction, in order, its sequence number and its source.\<close>

fun is_operation :: "TransactionMutator \<Rightarrow> bool" where
  "is_operation (AccountMerge _) = True"
| "is_operation (PaymentOp _) = True"
| "is_operation _ = False"

definition operations :: "TransactionBuilder \<Rightarrow> TransactionMutator list" where
  "operations tx = filter is_operation tx"


subsection \<open>The peg-out engine\<close>

text \<open>
  What a failed submission tells the engine: \<open>EquatorError rc\<close> is an error whose
  root (\<^verbatim>\<open>errors.Root\<close>) is an \<^verbatim>\<open>*equator.Error\<close>, with \<open>rc\<close> what its
  \<^verbatim>\<open>ResultCodes()\<close> returns (\<^const>\<open>None\<close> when that call itself fails);
  \<open>OtherError\<close> is an error with any other root.
\<close>

record TransactionResultCodes =
  TransactionCode :: string
  OperationCodes :: "string list"

datatype submit_error = EquatorError "TransactionResultCodes option" | OtherError

record Custodian =
  AccountID :: AccountId
  network :: string
  seed :: string

text \<open>
  The state the engine works on: the table \<^verbatim>\<open>exports\<close>, the submissions made to
  the main ledger so far (transaction and signing seed), and the records sent on
  the channel \<^verbatim>\<open>pegouts\<close> so far.
\<close>

record engine =
  exports :: "export_row list"
  submissions :: "(TransactionBuilder \<times> string) list"
  pegouts :: "pegOut list"

text \<open>
  The libraries, the main ledger and the store's availability, as the engine
  sees them. \<open>bad_address\<close> and \<open>bad_amount\<close> are the checks of the transaction
  builder. \<open>respond\<close> is the main ledger: its answer to a submission, which may
  depend on everything submitted before. \<open>ForQueryRows_fails\<close> tells whether the
  query of a wake-up fails, \<open>ExecContext_fails\<close> whether the update of a row does
  (in the state of the engine at that point, for the peg-out state and the
  transaction id given to the statement).
\<close>

record libs =
  json_Unmarshal :: "bytes \<Rightarrow> pegOut option"
  xdr_SafeUnmarshal :: "bytes \<Rightarrow> Asset option"
  SetAddress :: "string \<Rightarrow> AccountId option"
  Address :: "AccountId \<Rightarrow> string"
  bad_address :: "string \<Rightarrow> bool"
  bad_amount :: "OpMutator \<Rightarrow> bool"
  respond :: "(TransactionBuilder \<times> string) list \<Rightarrow> TransactionBuilder \<Rightarrow> submit_error option"
  ForQueryRows_fails :: "engine \<Rightarrow> bool"
  ExecContext_fails :: "engine \<Rightarrow> pegOutState \<Rightarrow> bytes \<Rightarrow> bool"

text \<open>
  \<^verbatim>\<open>SELECT txid, pegout_json FROM exports WHERE pegged_out IN ($1, $2)\<close>, the query
  of both \<^verbatim>\<open>pegOutFromExports\<close> and \<^verbatim>\<open>watchPegOuts\<close>.
\<close>

definition select_exports :: "export_row list \<Rightarrow> pegOutState \<Rightarrow> pegOutState \<Rightarrow> (bytes \<times> bytes) list" where
  "select_exports rows a b =
     map (\<lambda>r. (txid r, pegout_json r)) (filter (\<lambda>r. pegged_out r = a \<or> pegged_out r = b) rows)"

text \<open>
  \<^verbatim>\<open>UPDATE exports SET pegged_out=$1 WHERE txid=$2\<close>: the new table and the number
  of rows affected.
\<close>

definition update_pegged_out :: "export_row list \<Rightarrow> pegOutState \<Rightarrow> bytes \<Rightarrow> export_row list \<times> nat" where
  "update_pegged_out rows st t =
     (map (\<lambda>r. if txid r = t then r\<lparr>pegged_out := st\<rparr> else r) rows,
      length (filter (\<lambda>r. txid r = t) rows))"

text \<open>
  The \<^verbatim>\<open>sql.Result\<close> of an update. The driver the repository opens is
  \<^verbatim>\<open>sqlite3\<close> (\<^verbatim>\<open>export_test.go\<close>): its result holds the number of rows changed,
  and its \<^verbatim>\<open>RowsAffected\<close> returns that number with a \<^verbatim>\<open>nil\<close> error. The branch
  of the code for an error of \<^verbatim>\<open>RowsAffected\<close> is kept where the code has it.
\<close>

datatype sql_Result = SQLiteResult nat

definition RowsAffected :: "sql_Result \<Rightarrow> unit + nat" where
  "RowsAffected result = (case result of SQLiteResult changes \<Rightarrow> Inr changes)"

text \<open>
  Modelled from the spec: \<^verbatim>\<open>zioncoin.SignAndSubmitTx\<close> (package
  \<^verbatim>\<open>slidechain/zioncoin\<close>, not among the sources) signs the transaction with the
  seed and hands it to the main-ledger client, \<^verbatim>\<open>submit(signedTx) -> (result, error)\<close>.
\<close>

definition SignAndSubmitTx ::
  "libs \<Rightarrow> engine \<Rightarrow> TransactionBuilder \<Rightarrow> string \<Rightarrow> submit_error option \<times> engine"
where
  "SignAndSubmitTx L s tx sd =
     (respond L (submissions s) tx, s\<lparr>submissions := submissions s @ [(tx, sd)]\<rparr>)"

text \<open>
  The method \<^verbatim>\<open>pegOut\<close>. An error of the builder is wrapped and returned without
  a submission; its root is not a ledger-client error.
\<close>

definition pegOut_method ::
  "libs \<Rightarrow> Custodian \<Rightarrow> engine \<Rightarrow> AccountId \<Rightarrow> Asset \<Rightarrow> 64 word \<Rightarrow> AccountId \<Rightarrow> 64 word \<Rightarrow>
   (submit_error option \<times> engine) go"
where
  "pegOut_method L c s exporter asset amount tempID seqnum =
     (case buildPegOutTx (Address L) (bad_address L) (bad_amount L) (Address L (AccountID c))
             (Address L exporter) (Address L tempID) (network c) asset amount seqnum of
        Panicked \<Rightarrow> Panicked
      | Fatal \<Rightarrow> Fatal
      | Return (Inl _) \<Rightarrow> Return (Some OtherError, s)
      | Return (Inr tx) \<Rightarrow> Return (SignAndSubmitTx L s tx (seed c)))"

text \<open>
  \<^verbatim>\<open>xdr.TransactionResultCodeTxBadSeq.String()\<close>. Package \<^verbatim>\<open>xdr\<close> (a library, not
  among the sources) is generated code: \<^verbatim>\<open>String()\<close> of an enumeration constant
  returns the name of the constant. The main ledger reports a stale sequence
  number with the transaction result code \<^verbatim>\<open>tx_bad_seq\<close>.
\<close>

definition TransactionResultCodeTxBadSeq_String :: string where
  "TransactionResultCodeTxBadSeq_String = ''TransactionResultCodeTxBadSeq''"

definition tx_bad_seq :: string where
  "tx_bad_seq = ''tx_bad_seq''"

text \<open>
  Lines 157 to 170 of \<^verbatim>\<open>pegOutFromExports\<close>: the state to write, from the error
  of \<^verbatim>\<open>pegOut\<close>.
\<close>

definition classify :: "submit_error option \<Rightarrow> pegOutState go" where
  "classify err =
     (case err of
        None \<Rightarrow> Return pegOutOK
      | Some OtherError \<Rightarrow> Return pegOutFail
      | Some (EquatorError None) \<Rightarrow> Fatal
      | Some (EquatorError (Some resultCodes)) \<Rightarrow>
          if TransactionCode resultCodes = TransactionResultCodeTxBadSeq_String
          then Return pegOutRetry else Return pegOutFail)"

text \<open>
  Lines 171 to 188: the update of the row is executed (a failure is fatal,
  nothing written), the count of affected rows is read (an error is fatal) and
  checked (a count other than one is fatal), and a record whose state is ok or
  fail is sent on the channel with its transaction id.
\<close>

definition write_and_forward ::
  "libs \<Rightarrow> engine \<Rightarrow> bytes \<Rightarrow> pegOut \<Rightarrow> pegOutState \<Rightarrow> unit go \<times> engine"
where
  "write_and_forward L s1 t p peggedOut =
     (if ExecContext_fails L s1 peggedOut t then (Fatal, s1)
      else
        (let upd = update_pegged_out (exports s1) peggedOut t;
             result = SQLiteResult (snd upd);
             s2 = s1\<lparr>exports := fst upd\<rparr>
         in case RowsAffected result of
              Inl _ \<Rightarrow> (Fatal, s2)
            | Inr numAffected \<Rightarrow>
                if numAffected \<noteq> 1 then (Fatal, s2)
                else if peggedOut = pegOutOK \<or> peggedOut = pegOutFail
                  then (Return (), s2\<lparr>pegouts := pegouts s2 @ [p\<lparr>State := peggedOut, TxID := t\<rparr>]\<rparr>)
                  else (Return (), s2)))"

text \<open>
  Lines 156 to 170: the peg-out is attempted and its outcome classified.
\<close>

definition submit_and_write ::
  "libs \<Rightarrow> Custodian \<Rightarrow> engine \<Rightarrow> bytes \<Rightarrow> pegOut \<Rightarrow> Asset \<Rightarrow> AccountId \<Rightarrow> AccountId \<Rightarrow> unit go \<times> engine"
where
  "submit_and_write L c s t p asset tempID exporter =
     (case pegOut_method L c s exporter asset (Amount p) tempID (Seqnum p) of
        Panicked \<Rightarrow> (Panicked, s)
      | Fatal \<Rightarrow> (Fatal, s)
      | Return r \<Rightarrow>
          (case classify (fst r) of
             Panicked \<Rightarrow> (Panicked, snd r)
           | Fatal \<Rightarrow> (Fatal, snd r)
           | Return peggedOut \<Rightarrow> write_and_forward L (snd r) t p peggedOut))"

text \<open>
  The body of the loop over the selected rows, for the row \<open>(t, ref)\<close>: lines 135
  to 154 decode the payload, the asset and the two addresses, each failure being
  fatal. The result is how the body ends (\<open>Return ()\<close>: the loop goes on) and the
  state it leaves.
\<close>

definition process_export :: "libs \<Rightarrow> Custodian \<Rightarrow> engine \<Rightarrow> bytes \<times> bytes \<Rightarrow> unit go \<times> engine" where
  "process_export L c s row =
     (case json_Unmarshal L (snd row) of
        None \<Rightarrow> (Fatal, s)
      | Some p \<Rightarrow>
          (case xdr_SafeUnmarshal L (AssetXDR p) of
             None \<Rightarrow> (Fatal, s)
           | Some asset \<Rightarrow>
               (case SetAddress L (TempAddr p) of
                  None \<Rightarrow> (Fatal, s)
                | Some tempID \<Rightarrow>
                    (case SetAddress L (Exporter p) of
                       None \<Rightarrow> (Fatal, s)
                     | Some exporter \<Rightarrow> submit_and_write L c s (fst row) p asset tempID exporter))))"

fun run_rows :: "libs \<Rightarrow> Custodian \<Rightarrow> engine \<Rightarrow> (bytes \<times> bytes) list \<Rightarrow> unit go \<times> engine" where
  "run_rows L c s [] = (Return (), s)"
| "run_rows L c s (row # todo) =
     (case process_export L c s row of
        (Return u, s') \<Rightarrow> run_rows L c s' todo
      | (Panicked, s') \<Rightarrow> (Panicked, s')
      | (Fatal, s') \<Rightarrow> (Fatal, s'))"

text \<open>
  One wake-up of \<^verbatim>\<open>pegOutFromExports\<close>: the query (a failure is fatal), then the
  loop over its rows.
\<close>

definition pegOutFromExports_wake :: "libs \<Rightarrow> Custodian \<Rightarrow> engine \<Rightarrow> unit go \<times> engine" where
  "pegOutFromExports_wake L c s =
     (if ForQueryRows_fails L s then (Fatal, s)
      else run_rows L c s (select_exports (exports s) pegOutNotYet pegOutRetry))"

text \<open>The periodic sweep of \<^verbatim>\<open>watchPegOuts\<close>: the rows it hands to the finalizer.\<close>

definition watchPegOuts_sweep :: "export_row list \<Rightarrow> (bytes \<times> bytes) list" where
  "watchPegOuts_sweep rows = select_exports rows pegOutOK pegOutFail"


text \<open>
  The transitions of the peg-out state the spec allows: from not-yet to retry, ok
  or fail, and from retry to ok or fail. A row evolves monotonically when its key
  and payload stay and its state stays or takes an allowed transition.
\<close>

fun allowed_transition :: "pegOutState \<Rightarrow> pegOutState \<Rightarrow> bool" where
  "allowed_transition pegOutNotYet pegOutRetry = True"
| "allowed_transition pegOutNotYet pegOutOK = True"
| "allowed_transition pegOutNotYet pegOutFail = True"
| "allowed_transition pegOutRetry pegOutOK = True"
| "allowed_transition pegOutRetry pegOutFail = True"
| "allowed_transition _ _ = False"

definition row_monotone :: "export_row \<Rightarrow> export_row \<Rightarrow> bool" where
  "row_monotone r r' \<longleftrightarrow>
     txid r' = txid r \<and> pegout_json r' = pegout_json r \<and>
     (pegged_out r' = pegged_out r \<or> allowed_transition (pegged_out r) (pegged_out r'))"

subsection \<open>The export watcher\<close>

text \<open>
  The side ledger's log, as \<^verbatim>\<open>watchExports\<close> reads it: \<^verbatim>\<open>tx.Log\<close> is a slice of
  tuples, a \<^verbatim>\<open>txvm.Tuple\<close> is a slice of \<^verbatim>\<open>txvm.Data\<close>, and a data item is an
  \<^verbatim>\<open>Int\<close> (an \<^verbatim>\<open>int64\<close>, here \<open>Int64\<close>), a \<^verbatim>\<open>Bytes\<close> or a \<^verbatim>\<open>Tuple\<close>. Of a
  transaction the watcher reads the id and the log.
\<close>

datatype Data = Int64 "64 word" | Bytes bytes | Tuple "Data list"

record Tx =
  ID :: bytes
  Log :: "Data list list"

text \<open>
  The constants of package \<^verbatim>\<open>txvm\<close> that name the kind of a log entry, and the
  seed of the first export contract (\<^verbatim>\<open>txvm.ContractSeed\<close> of the assembled
  program).
\<close>

record txvm_consts =
  InputCode :: byte
  LogCode :: byte
  OutputCode :: byte
  exportContract1Seed :: bytes

text \<open>
  \<^verbatim>\<open>item[0].(txvm.Bytes)[0]\<close>: the index into an empty tuple, the type assertion on
  an item that is no \<^verbatim>\<open>Bytes\<close>, and the index into empty bytes each panic
  (\<^const>\<open>None\<close>).
\<close>

definition entry_code :: "Data list \<Rightarrow> byte option" where
  "entry_code item =
     (case item of
        [] \<Rightarrow> None
      | d # _ \<Rightarrow> (case d of Bytes b \<Rightarrow> (case b of [] \<Rightarrow> None | c # _ \<Rightarrow> Some c) | _ \<Rightarrow> None))"

text \<open>\<^verbatim>\<open>item[i].(txvm.Bytes)\<close>, with the same panics.\<close>

definition bytes_at :: "Data list \<Rightarrow> nat \<Rightarrow> bytes option" where
  "bytes_at item i =
     (if i < length item then (case item ! i of Bytes b \<Rightarrow> Some b | _ \<Rightarrow> None) else None)"

text \<open>
  Lines 118 to 146 of \<^verbatim>\<open>watchExports\<close>, for one transaction: \<open>Return None\<close> is
  \<^verbatim>\<open>continue\<close>, \<open>Return (Some exportRef)\<close> goes on to record the export.
\<close>

definition check_seed_and_ref :: "libs \<Rightarrow> txvm_consts \<Rightarrow> Data list list \<Rightarrow> bytes option go" where
  "check_seed_and_ref L K lg =
     (let exportSeedLogItem = lg ! (length lg - 3) in
      case entry_code exportSeedLogItem of
        None \<Rightarrow> Panicked
      | Some c \<Rightarrow>
          if c \<noteq> LogCode K then Return None
          else (case bytes_at exportSeedLogItem 1 of
                  None \<Rightarrow> Panicked
                | Some sd \<Rightarrow>
                    if sd \<noteq> exportContract1Seed K then Return None
                    else (case bytes_at (lg ! 1) 2 of
                            None \<Rightarrow> Panicked
                          | Some exportRef \<Rightarrow>
                              (case json_Unmarshal L exportRef of
                                 None \<Rightarrow> Return None
                               | Some info \<Rightarrow> Return (Some exportRef)))))"

definition recognize_export :: "libs \<Rightarrow> txvm_consts \<Rightarrow> Tx \<Rightarrow> bytes option go" where
  "recognize_export L K tx =
     (let lg = Log tx in
      if length lg \<noteq> 5 \<and> length lg \<noteq> 7 then Return None
      else (case entry_code (lg ! 0) of
              None \<Rightarrow> Panicked
            | Some c0 \<Rightarrow>
                if c0 \<noteq> InputCode K then Return None
                else (case entry_code (lg ! 1) of
                        None \<Rightarrow> Panicked
                      | Some c1 \<Rightarrow>
                          if c1 \<noteq> LogCode K then Return None
                          else (let outputIndex = length lg - 2 in
                                case entry_code (lg ! outputIndex) of
                                  None \<Rightarrow> Panicked
                                | Some c2 \<Rightarrow>
                                    if c2 \<noteq> OutputCode K then Return None
                                    else check_seed_and_ref L K lg))))"

text \<open>
  Modelled from the spec: the declaration of the table \<^verbatim>\<open>exports\<close> is not among
  the sources; the spec gives \<^verbatim>\<open>exports(txid PK, pegout_json, pegged_out)\<close> with
  \<^verbatim>\<open>not-yet\<close> the initial state. So
  \<^verbatim>\<open>INSERT INTO exports (txid, pegout_json) VALUES ($1, $2)\<close> fails on a transaction
  id the table already holds.
\<close>

definition insert_export :: "export_row list \<Rightarrow> bytes \<Rightarrow> bytes \<Rightarrow> export_row list option" where
  "insert_export rows t ref =
     (if t \<in> set (map txid rows) then None
      else Some (rows @ [\<lparr>txid = t, pegout_json = ref, pegged_out = pegOutNotYet\<rparr>]))"

text \<open>
  How the handler given to \<^verbatim>\<open>RunPin\<close> ends on a block: it returns \<^verbatim>\<open>nil\<close>, it
  returns the wrapped error of the insert, or it panics.
\<close>

datatype handler_end = HandlerNil | HandlerError | HandlerPanic

text \<open>
  The handler: the loop over the transactions of a block. The state is the table
  \<^verbatim>\<open>exports\<close> and the number of broadcasts on the condition \<^verbatim>\<open>c.exports\<close>.
\<close>

fun watchExports_block ::
  "libs \<Rightarrow> txvm_consts \<Rightarrow> export_row list \<times> nat \<Rightarrow> Tx list \<Rightarrow> handler_end \<times> export_row list \<times> nat"
where
  "watchExports_block L K st [] = (HandlerNil, st)"
| "watchExports_block L K st (tx # txs) =
     (case recognize_export L K tx of
        Panicked \<Rightarrow> (HandlerPanic, st)
      | Fatal \<Rightarrow> (HandlerPanic, st)
      | Return None \<Rightarrow> watchExports_block L K st txs
      | Return (Some exportRef) \<Rightarrow>
          (case insert_export (fst st) (ID tx) exportRef of
             None \<Rightarrow> (HandlerError, st)
           | Some rows \<Rightarrow> watchExports_block L K (rows, Suc (snd st)) txs))"


text \<open>
  The shape in the spec's words: five or seven entries, ``input, log, \<dots>, output,
  log (matching export contract seed)'', the sequence ending with the output and
  then the log entry of the seed.
\<close>

definition spec_export_shape :: "txvm_consts \<Rightarrow> Data list list \<Rightarrow> bool" where
  "spec_export_shape K lg \<longleftrightarrow>
     (length lg = 5 \<or> length lg = 7) \<and>
     entry_code (lg ! 0) = Some (InputCode K) \<and>
     entry_code (lg ! 1) = Some (LogCode K) \<and>
     entry_code (lg ! (length lg - 2)) = Some (OutputCode K) \<and>
     entry_code (lg ! (length lg - 1)) = Some (LogCode K) \<and>
     bytes_at (lg ! (length lg - 1)) 1 = Some (exportContract1Seed K)"


subsection \<open>The peg-in watcher\<close>

text \<open>
  Modelled from the spec: the declarations of the tables \<^verbatim>\<open>pegs\<close> and
  \<^verbatim>\<open>custodian\<close> are not among the sources; the spec gives
  \<^verbatim>\<open>pegs(nonce_hash PK, amount, asset_xdr, observed_on_main)\<close> and
  \<^verbatim>\<open>custodian(seed, cursor)\<close>. The flag is the column \<^verbatim>\<open>zioncoin_tx\<close> of the
  statements, an integer.
\<close>

record peg_row =
  nonce_hash :: bytes
  amount :: "64 word"
  asset_xdr :: bytes
  zioncoin_tx :: int

record custodian_row =
  seed_col :: string
  cursor :: string

text \<open>
  \<^verbatim>\<open>UPDATE pegs SET amount=$1, asset_xdr=$2, zioncoin_tx=1 WHERE nonce_hash=$3 AND zioncoin_tx=0\<close>:
  the new table and the number of rows affected. The store executes a statement
  as one step.
\<close>

definition update_observed :: "peg_row list \<Rightarrow> 64 word \<Rightarrow> bytes \<Rightarrow> bytes \<Rightarrow> peg_row list \<times> nat" where
  "update_observed rows amt assetXDR nonceHash =
     (map (\<lambda>r. if nonce_hash r = nonceHash \<and> zioncoin_tx r = 0
                then r\<lparr>amount := amt, asset_xdr := assetXDR, zioncoin_tx := 1\<rparr> else r) rows,
      length (filter (\<lambda>r. nonce_hash r = nonceHash \<and> zioncoin_tx r = 0) rows))"

text \<open>The rows the conditional update matches: those of the nonce hash not yet observed.\<close>

definition unobserved :: "bytes \<Rightarrow> peg_row list \<Rightarrow> peg_row list" where
  "unobserved h rows = filter (\<lambda>r. nonce_hash r = h \<and> zioncoin_tx r = 0) rows"

text \<open>\<^verbatim>\<open>UPDATE custodian SET cursor=$1 WHERE seed=$2\<close>.\<close>

definition update_cursor :: "custodian_row list \<Rightarrow> string \<Rightarrow> string \<Rightarrow> custodian_row list" where
  "update_cursor rows pt sd = map (\<lambda>r. if seed_col r = sd then r\<lparr>cursor := pt\<rparr> else r) rows"

text \<open>
  Any number of executions of the conditional update, one after the other, each
  with its own arguments: the counts of affected rows in order, and the table
  left. Deliveries that run at the same time reach the store as such a sequence.
\<close>

fun run_updates :: "peg_row list \<Rightarrow> (64 word \<times> bytes \<times> bytes) list \<Rightarrow> nat list \<times> peg_row list" where
  "run_updates rows [] = ([], rows)"
| "run_updates rows (u # us) =
     (let r = update_observed rows (fst u) (fst (snd u)) (snd (snd u));
          rest = run_updates (fst r) us
      in (snd r # fst rest, snd rest))"

text \<open>
  The executions for the nonce hash \<open>h\<close> that succeeded (affected a row), as the
  counts they returned.
\<close>

definition successes :: "bytes \<Rightarrow> (64 word \<times> bytes \<times> bytes) list \<Rightarrow> nat list \<Rightarrow> nat list" where
  "successes h us counts =
     map snd (filter (\<lambda>p. snd (snd (fst p)) = h \<and> snd p \<noteq> 0) (zip us counts))"

text \<open>
  A main-ledger transaction as the watcher's callback sees it after decoding the
  envelope: the memo (a hash, or of another type) and the operations (a payment
  with its destination, asset and amount, or of another type).
\<close>

datatype Memo = MemoHash bytes | MemoOther

datatype Operation = PaymentOperation AccountId Asset "64 word" | OtherOperation

record TransactionEnvelope =
  Memo_of :: Memo
  Operations :: "Operation list"

record equator_Transaction =
  PT :: string
  EnvelopeXdr :: string

text \<open>
  The store as the peg-in watcher uses it, with the number of broadcasts on the
  condition \<^verbatim>\<open>c.imports\<close>.
\<close>

record pegin_store =
  pegs :: "peg_row list"
  custodian :: "custodian_row list"
  broadcasts :: nat

text \<open>
  The libraries and the store's availability, as the watcher sees them:
  \<open>select_cursor_fails\<close> tells whether the query of the cursor fails (with an
  error other than \<^verbatim>\<open>sql.ErrNoRows\<close>), \<open>update_pegs_fails\<close> and
  \<open>update_cursor_fails\<close> whether the two updates of the callback do, in the
  state of the store at that point and for the arguments of the statement.
\<close>

record pegin_libs =
  SafeUnmarshalBase64 :: "string \<Rightarrow> TransactionEnvelope option"
  MarshalBinary :: "Asset \<Rightarrow> bytes option"
  select_cursor_fails :: "pegin_store \<Rightarrow> bool"
  update_pegs_fails :: "pegin_store \<Rightarrow> 64 word \<Rightarrow> bytes \<Rightarrow> bytes \<Rightarrow> bool"
  update_cursor_fails :: "pegin_store \<Rightarrow> string \<Rightarrow> bool"

text \<open>
  The loop over the operations of one transaction (lines 46 to 87). A failure of
  the conditional update is fatal, nothing written; an affected row count other
  than one is fatal, after the update was executed; a failure of the update of
  the cursor is fatal, the peg observed.
\<close>

fun handle_operations ::
  "pegin_libs \<Rightarrow> Custodian \<Rightarrow> string \<Rightarrow> bytes \<Rightarrow> pegin_store \<Rightarrow> Operation list \<Rightarrow> unit go \<times> pegin_store"
where
  "handle_operations P c pt nonceHash st [] = (Return (), st)"
| "handle_operations P c pt nonceHash st (OtherOperation # ops) =
     handle_operations P c pt nonceHash st ops"
| "handle_operations P c pt nonceHash st (PaymentOperation dest asset amt # ops) =
     (if dest \<noteq> AccountID c then handle_operations P c pt nonceHash st ops
      else (case MarshalBinary P asset of
              None \<Rightarrow> (Fatal, st)
            | Some assetXDR \<Rightarrow>
                if update_pegs_fails P st amt assetXDR nonceHash then (Fatal, st)
                else
                  (let upd = update_observed (pegs st) amt assetXDR nonceHash;
                       resulted = SQLiteResult (snd upd);
                       st1 = st\<lparr>pegs := fst upd\<rparr>
                   in case RowsAffected resulted of
                        Inl _ \<Rightarrow> (Fatal, st1)
                      | Inr numAffected \<Rightarrow>
                          if numAffected \<noteq> 1 then (Fatal, st1)
                          else if update_cursor_fails P st1 pt then (Fatal, st1)
                          else handle_operations P c pt nonceHash
                                 (st1\<lparr>custodian := update_cursor (custodian st1) pt (seed c),
                                      broadcasts := Suc (broadcasts st1)\<rparr>) ops)))"

text \<open>The callback given to \<^verbatim>\<open>StreamTransactions\<close> (lines 32 to 88).\<close>

definition watchPegIns_handler ::
  "pegin_libs \<Rightarrow> Custodian \<Rightarrow> pegin_store \<Rightarrow> equator_Transaction \<Rightarrow> unit go \<times> pegin_store"
where
  "watchPegIns_handler P c st tx =
     (case SafeUnmarshalBase64 P (EnvelopeXdr tx) of
        None \<Rightarrow> (Fatal, st)
      | Some env \<Rightarrow>
          (case Memo_of env of
             MemoOther \<Rightarrow> (Return (), st)
           | MemoHash nonceHash \<Rightarrow> handle_operations P c (PT tx) nonceHash st (Operations env)))"

text \<open>The callback on the transactions one call of the stream delivers, in order.\<close>

fun deliver ::
  "pegin_libs \<Rightarrow> Custodian \<Rightarrow> pegin_store \<Rightarrow> equator_Transaction list \<Rightarrow> unit go \<times> pegin_store"
where
  "deliver P c st [] = (Return (), st)"
| "deliver P c st (tx # txs) =
     (case watchPegIns_handler P c st tx of
        (Return u, st') \<Rightarrow> deliver P c st' txs
      | (Panicked, st') \<Rightarrow> (Panicked, st')
      | (Fatal, st') \<Rightarrow> (Fatal, st'))"

text \<open>
  A peg transaction, in the spec's words: its memo is a hash and at least one of
  its operations is a payment to the custodian's account. \<open>peg_of\<close> gives the
  nonce hash of the peg such a transaction makes.
\<close>

fun pays :: "AccountId \<Rightarrow> Operation \<Rightarrow> bool" where
  "pays a (PaymentOperation dest asset amt) = (dest = a)"
| "pays a OtherOperation = False"

definition peg_of :: "pegin_libs \<Rightarrow> Custodian \<Rightarrow> equator_Transaction \<Rightarrow> bytes option" where
  "peg_of P c tx =
     (case SafeUnmarshalBase64 P (EnvelopeXdr tx) of
        None \<Rightarrow> None
      | Some env \<Rightarrow>
          (case Memo_of env of
             MemoOther \<Rightarrow> None
           | MemoHash h \<Rightarrow> if list_ex (pays (AccountID c)) (Operations env) then Some h else None))"

text \<open>
  A peg is observed when the table \<^verbatim>\<open>pegs\<close> holds a row of its nonce hash and no
  row of that hash is left unobserved.
\<close>

definition peg_observed :: "bytes \<Rightarrow> peg_row list \<Rightarrow> bool" where
  "peg_observed h rows \<longleftrightarrow> h \<in> set (map nonce_hash rows) \<and> unobserved h rows = []"

text \<open>
  Modelled from the spec: the main-ledger client is not among the sources; the
  spec gives \<^verbatim>\<open>streamTransactions(account, cursor, callback) -> error\<close>, the error
  being \<^verbatim>\<open>cancelled\<close> or transient. One call, started from a cursor, delivers
  transactions to the callback, leaves the cursor variable it was given at some
  position, and ends. \<open>done_in_backoff\<close> tells whether the context is cancelled
  while the watcher waits for \<^verbatim>\<open>backoff.Next()\<close> after the call.
\<close>

datatype stream_end = StreamCanceled | StreamError | StreamNil

record stream_call =
  delivered :: "equator_Transaction list"
  cursor_left :: string
  ended :: stream_end
  done_in_backoff :: bool

datatype watcher_end = Exited | FatalExit | PanicExit | StillRunning

text \<open>
  What the watcher does towards the main ledger and the clock, in order:
  \<open>StreamCall cur txs\<close> is a call of \<^verbatim>\<open>StreamTransactions\<close> with the cursor
  variable at \<open>cur\<close>, in which the transactions \<open>txs\<close> are delivered;
  \<open>Sleep k\<close> is the wait \<^verbatim>\<open>time.Sleep(backoff.Next())\<close> for the \<open>k\<close>-th delay
  (counted from 0) of the watcher's \<^verbatim>\<open>i10rnet.Backoff{Base: 100 * time.Millisecond}\<close>,
  the exponential backoff of package \<^verbatim>\<open>starlight/net\<close> (a library; the length of
  its delays is outside the model).
\<close>

datatype watch_event = StreamCall string "equator_Transaction list" | Sleep nat

text \<open>
  The loop of \<^verbatim>\<open>watchPegIns\<close> (lines 31 to 105), for at most \<open>n\<close> calls of the
  stream: \<open>stream i cur\<close> is the \<open>i\<close>-th call, started from the cursor \<open>cur\<close>.
  The loop has no exit but cancellation and a fatal error: after \<open>n\<close> calls the
  watcher is still running. The result is how the watcher ends, what it did, and
  the store it leaves.
\<close>

fun watchPegIns_loop ::
  "pegin_libs \<Rightarrow> Custodian \<Rightarrow> (nat \<Rightarrow> string \<Rightarrow> stream_call) \<Rightarrow> nat \<Rightarrow> nat \<Rightarrow> string \<Rightarrow> pegin_store \<Rightarrow>
   watcher_end \<times> watch_event list \<times> pegin_store"
where
  "watchPegIns_loop P c stream 0 i cur st = (StillRunning, [], st)"
| "watchPegIns_loop P c stream (Suc n) i cur st =
     (let call = stream i cur in
      case deliver P c st (delivered call) of
        (Fatal, st') \<Rightarrow> (FatalExit, [StreamCall cur (delivered call)], st')
      | (Panicked, st') \<Rightarrow> (PanicExit, [StreamCall cur (delivered call)], st')
      | (Return u, st') \<Rightarrow>
          if ended call = StreamCanceled then (Exited, [StreamCall cur (delivered call)], st')
          else if done_in_backoff call then (Exited, [StreamCall cur (delivered call), Sleep i], st')
          else (let rest = watchPegIns_loop P c stream n (Suc i) (cursor_left call) st'
                in (fst rest, StreamCall cur (delivered call) # Sleep i # fst (snd rest),
                    snd (snd rest))))"

text \<open>
  \<^verbatim>\<open>SELECT cursor FROM custodian\<close>, scanned into the cursor variable: the cursor
  of the first row, the empty cursor if there is no row.
\<close>

definition persisted_cursor :: "pegin_store \<Rightarrow> string" where
  "persisted_cursor st = (case custodian st of [] \<Rightarrow> [] | r # _ \<Rightarrow> cursor r)"

text \<open>
  \<^verbatim>\<open>watchPegIns\<close>: the cursor is read from the table \<^verbatim>\<open>custodian\<close> once, before
  the loop.
\<close>

definition watchPegIns ::
  "pegin_libs \<Rightarrow> Custodian \<Rightarrow> (nat \<Rightarrow> string \<Rightarrow> stream_call) \<Rightarrow> nat \<Rightarrow> pegin_store \<Rightarrow>
   watcher_end \<times> watch_event list \<times> pegin_store"
where
  "watchPegIns P c stream n st =
     (if select_cursor_fails P st then (FatalExit, [], st)
      else watchPegIns_loop P c stream n 0 (persisted_cursor st) st)"

text \<open>
  The calls and waits of a watcher that nothing stops, for \<open>n\<close> calls: every call
  is followed by a wait, and the next call is made with the cursor variable as
  the call before left it.
\<close>

fun schedule :: "(nat \<Rightarrow> string \<Rightarrow> stream_call) \<Rightarrow> nat \<Rightarrow> nat \<Rightarrow> string \<Rightarrow> watch_event list" where
  "schedule stream 0 i cur = []"
| "schedule stream (Suc n) i cur =
     StreamCall cur (delivered (stream i cur)) # Sleep i #
       schedule stream n (Suc i) (cursor_left (stream i cur))"

subsection \<open>A small instance\<close>

text \<open>
  One export of 50 units of the native asset, recorded with sequence number 7 of
  its temporary account, and libraries that decode exactly this record and take
  every address and amount. The main ledger answers every submission with
  \<open>answer\<close>. The store executes every statement of \<open>ex_libs\<close>, and fails every
  update of \<open>ex_libs_store_down\<close>.
\<close>

definition ex_pegOut :: pegOut where
  "ex_pegOut = \<lparr>TxID = [], AssetXDR = [0, 0, 0, 0], TempAddr = ''GTEMP'', Seqnum = 7,
     Exporter = ''GEXPORTER'', Amount = 50, Anchor = [], Pubkey = [], State = pegOutNotYet\<rparr>"

text \<open>
  The bytes of its reference payload, the text
  \<^verbatim>\<open>{"asset":"AAAAAA==","temp":"GTEMP","seqnum":7,"exporter":"GEXPORTER","amount":50,"anchor":null,"pubkey":null}\<close>.
\<close>

definition ex_ref :: bytes where
  "ex_ref =
    [123, 34, 97, 115, 115, 101, 116, 34, 58, 34, 65, 65, 65, 65, 65, 65, 61, 61,
     34, 44, 34, 116, 101, 109, 112, 34, 58, 34, 71, 84, 69, 77, 80, 34, 44, 34,
     115, 101, 113, 110, 117, 109, 34, 58, 55, 44, 34, 101, 120, 112, 111, 114, 116,
     101, 114, 34, 58, 34, 71, 69, 88, 80, 79, 82, 84, 69, 82, 34, 44, 34, 97, 109,
     111, 117, 110, 116, 34, 58, 53, 48, 44, 34, 97, 110, 99, 104, 111, 114, 34, 58,
     110, 117, 108, 108, 44, 34, 112, 117, 98, 107, 101, 121, 34, 58, 110, 117, 108,
     108, 125]"

definition ex_native :: Asset where
  "ex_native = \<lparr>Type = AssetTypeNative, AlphaNum4 = None, AlphaNum12 = None\<rparr>"

definition ex_libs :: "submit_error option \<Rightarrow> libs" where
  "ex_libs answer =
     \<lparr>json_Unmarshal = (\<lambda>b. if b = ex_ref then Some ex_pegOut else None),
      xdr_SafeUnmarshal = (\<lambda>b. if b = [0, 0, 0, 0] then Some ex_native else None),
      SetAddress = (\<lambda>a. if a = ''GTEMP'' then Some [1] else if a = ''GEXPORTER'' then Some [2] else None),
      Address = (\<lambda>k. if k = [1] then ''GTEMP'' else if k = [2] then ''GEXPORTER'' else ''GCUSTODIAN''),
      bad_address = (\<lambda>a. False),
      bad_amount = (\<lambda>m. False),
      respond = (\<lambda>before tx. answer),
      ForQueryRows_fails = (\<lambda>s. False),
      ExecContext_fails = (\<lambda>s st t. False)\<rparr>"

definition ex_libs_store_down :: "submit_error option \<Rightarrow> libs" where
  "ex_libs_store_down answer = (ex_libs answer)\<lparr>ExecContext_fails := (\<lambda>s st t. True)\<rparr>"

definition ex_custodian :: Custodian where
  "ex_custodian = \<lparr>AccountID = [3], network = ''Test Network'', seed = ''SCUSTODIAN''\<rparr>"

definition ex_engine :: engine where
  "ex_engine = \<lparr>exports = [\<lparr>txid = [116], pegout_json = ex_ref, pegged_out = pegOutNotYet\<rparr>],
     submissions = [], pegouts = []\<rparr>"

text \<open>The transaction the engine builds for this export.\<close>

definition ex_pegout_tx :: TransactionBuilder where
  "ex_pegout_tx =
     [Network ''Test Network'', SourceAccount ''GTEMP'', Sequence 8, BaseFee 100,
      AccountMerge [Destination ''GEXPORTER''],
      PaymentOp (Payment [OpSourceAccount ''GCUSTODIAN'', Destination ''GEXPORTER'',
                          NativeAmount (HorizonString 50)])]"

text \<open>
  The constants of the side ledger, with a seed of 32 bytes, and four
  transactions of five log entries each. The first has the log of an export: the
  input, the log entry with the payload, the log entry of the export contract,
  its output, and the finalize entry. The second ends with an output and then a
  log entry of the export contract. The third is the first with a payload that
  is no JSON text. The fourth is the first with an integer where the payload is
  expected.
\<close>

definition ex_seed :: bytes where
  "ex_seed = replicate 32 1"

definition ex_consts :: txvm_consts where
  "ex_consts = \<lparr>InputCode = 73, LogCode = 76, OutputCode = 79, exportContract1Seed = ex_seed\<rparr>"

definition export_log :: "Data \<Rightarrow> Data list list" where
  "export_log payload =
     [[Bytes [73], Bytes [5], Bytes [10]],
      [Bytes [76], Bytes [5], payload],
      [Bytes [76], Bytes ex_seed, Bytes []],
      [Bytes [79], Bytes ex_seed, Bytes [11]],
      [Bytes [70], Bytes [], Int64 3, Bytes [12]]]"




definition ex_int_payload_tx :: Tx where
  "ex_int_payload_tx = \<lparr>ID = [119], Log = export_log (Int64 5)\<rparr>"

text \<open>
  A pending peg of nonce hash 7, a main-ledger transaction that pays 50 units
  of the native asset to the custodian with that hash as its memo, and the store
  before and after the transaction is handled. A second peg transaction, for the
  nonce hash 8, and a transaction without a hash memo. The store executes every
  statement.
\<close>

definition ex_pegs :: "peg_row list" where
  "ex_pegs = [\<lparr>nonce_hash = [7], amount = 0, asset_xdr = [], zioncoin_tx = 0\<rparr>]"

definition ex_envelope :: TransactionEnvelope where
  "ex_envelope = \<lparr>Memo_of = MemoHash [7], Operations = [PaymentOperation [3] ex_native 50]\<rparr>"

definition ex_envelope_8 :: TransactionEnvelope where
  "ex_envelope_8 = \<lparr>Memo_of = MemoHash [8], Operations = [PaymentOperation [3] ex_native 20]\<rparr>"

definition ex_envelope_other :: TransactionEnvelope where
  "ex_envelope_other = \<lparr>Memo_of = MemoOther, Operations = [OtherOperation]\<rparr>"

definition ex_pegin_libs :: pegin_libs where
  "ex_pegin_libs =
     \<lparr>SafeUnmarshalBase64 = (\<lambda>x. if x = ''AAAA'' then Some ex_envelope
                                  else if x = ''BBBB'' then Some ex_envelope_8
                                  else if x = ''CCCC'' then Some ex_envelope_other else None),
      MarshalBinary = (\<lambda>a. Some [0, 0, 0, 0]),
      select_cursor_fails = (\<lambda>st. False),
      update_pegs_fails = (\<lambda>st amt assetXDR nonceHash. False),
      update_cursor_fails = (\<lambda>st pt. False)\<rparr>"

definition ex_tx :: equator_Transaction where
  "ex_tx = \<lparr>PT = ''12'', EnvelopeXdr = ''AAAA''\<rparr>"

definition ex_tx_other :: equator_Transaction where
  "ex_tx_other = \<lparr>PT = ''13'', EnvelopeXdr = ''CCCC''\<rparr>"

definition ex_tx_8 :: equator_Transaction where
  "ex_tx_8 = \<lparr>PT = ''14'', EnvelopeXdr = ''BBBB''\<rparr>"

definition ex_store :: pegin_store where
  "ex_store = \<lparr>pegs = ex_pegs, custodian = [\<lparr>seed_col = ''SCUSTODIAN'', cursor = ''''\<rparr>], broadcasts = 0\<rparr>"

definition ex_observed :: pegin_store where
  "ex_observed = \<lparr>pegs = [\<lparr>nonce_hash = [7], amount = 50, asset_xdr = [0, 0, 0, 0], zioncoin_tx = 1\<rparr>],
                  custodian = [\<lparr>seed_col = ''SCUSTODIAN'', cursor = ''12''\<rparr>], broadcasts = 1\<rparr>"

text \<open>The store with the peg of hash 7 observed and a peg of hash 8 pending.\<close>

definition ex_observed_and_pending :: pegin_store where
  "ex_observed_and_pending =
     \<lparr>pegs = [\<lparr>nonce_hash = [7], amount = 50, asset_xdr = [0, 0, 0, 0], zioncoin_tx = 1\<rparr>,
              \<lparr>nonce_hash = [8], amount = 0, asset_xdr = [], zioncoin_tx = 0\<rparr>],
      custodian = [\<lparr>seed_col = ''SCUSTODIAN'', cursor = ''12''\<rparr>], broadcasts = 1\<rparr>"

text \<open>
  Three streams, each ending its calls with an error. Every call of the first
  delivers the payment for the peg of hash 7 and leaves the cursor variable where
  it was. The first call of the second delivers that payment and then the
  transaction without a hash memo, and leaves the cursor variable at the paging
  token of the last transaction delivered; its later calls deliver nothing.
  Every call of the third delivers the payment for the peg of hash 7 and then
  the payment for the peg of hash 8.
\<close>

definition ex_stream :: "nat \<Rightarrow> string \<Rightarrow> stream_call" where
  "ex_stream i cur = \<lparr>delivered = [ex_tx], cursor_left = cur, ended = StreamError, done_in_backoff = False\<rparr>"

definition ex_stream_advancing :: "nat \<Rightarrow> string \<Rightarrow> stream_call" where
  "ex_stream_advancing i cur =
     (if i = 0
      then \<lparr>delivered = [ex_tx, ex_tx_other], cursor_left = ''13'', ended = StreamError,
            done_in_backoff = False\<rparr>
      else \<lparr>delivered = [], cursor_left = cur, ended = StreamError, done_in_backoff = False\<rparr>)"

definition ex_stream_two_pegs :: "nat \<Rightarrow> string \<Rightarrow> stream_call" where
  "ex_stream_two_pegs i cur =
     \<lparr>delivered = [ex_tx, ex_tx_8], cursor_left = ''14'', ended = StreamError, done_in_backoff = False\<rparr>"

section \<open>Properties of the peg-out engine\<close>

subsection \<open>Auxiliary facts\<close>

lemma pegOut_method_frame:
  "pegOut_method L c s exporter asset amt tempID seqnum = Return r \<Longrightarrow>
     exports (snd r) = exports s \<and> pegouts (snd r) = pegouts s"
  by (auto simp: pegOut_method_def SignAndSubmitTx_def split: go.splits sum.splits)

lemma classify_cases:
  "classify None = Return pegOutOK"
  "classify (Some OtherError) = Return pegOutFail"
  "classify (Some (EquatorError None)) = Fatal"
  "TransactionCode rc = TransactionResultCodeTxBadSeq_String \<Longrightarrow>
     classify (Some (EquatorError (Some rc))) = Return pegOutRetry"
  "TransactionCode rc \<noteq> TransactionResultCodeTxBadSeq_String \<Longrightarrow>
     classify (Some (EquatorError (Some rc))) = Return pegOutFail"
  by (simp_all add: classify_def)

lemma classify_not_NotYet: "classify err \<noteq> Return pegOutNotYet"
  by (simp add: classify_def split: option.split submit_error.split)

lemma exports_write_and_forward:
  "exports (snd (write_and_forward L s1 t p st)) =
     (if ExecContext_fails L s1 st t then exports s1 else fst (update_pegged_out (exports s1) st t))"
  by (simp add: write_and_forward_def Let_def RowsAffected_def)

lemma write_and_forward_store_fails:
  "ExecContext_fails L s1 st t \<Longrightarrow> write_and_forward L s1 t p st = (Fatal, s1)"
  by (simp add: write_and_forward_def)

lemma count_txid:
  "distinct (map txid rows) \<Longrightarrow> r \<in> set rows \<Longrightarrow> length (filter (\<lambda>x. txid x = txid r) rows) = 1"
proof (induction rows)
  case Nil
  then show ?case by simp
next
  case (Cons a rows)
  show ?case
  proof (cases "a = r")
    case True
    have "\<forall>x\<in>set rows. txid x \<noteq> txid r"
      using Cons.prems(1) True by (auto simp: image_iff)
    then have "filter (\<lambda>x. txid x = txid r) rows = []"
      by (simp add: filter_empty_conv)
    then show ?thesis using True by simp
  next
    case False
    then have "r \<in> set rows" using Cons.prems(2) by simp
    moreover have "txid a \<noteq> txid r" using Cons.prems(1) \<open>r \<in> set rows\<close> by (auto simp: image_iff)
    ultimately show ?thesis using Cons by simp
  qed
qed

lemma selected_in_table:
  "(t, ref) \<in> set (select_exports rows a b) \<Longrightarrow>
     \<exists>r\<in>set rows. txid r = t \<and> pegout_json r = ref \<and> (pegged_out r = a \<or> pegged_out r = b)"
  by (auto simp: select_exports_def)

lemma distinct_selected:
  "distinct (map txid rows) \<Longrightarrow> distinct (map fst (select_exports rows a b))"
  by (simp add: select_exports_def comp_def distinct_map_filter)

lemma txid_update: "map txid (fst (update_pegged_out rows st t)) = map txid rows"
  by (simp add: update_pegged_out_def comp_def)

lemma pending_row_count:
  assumes "distinct (map txid rows)" and "(t, ref) \<in> set (select_exports rows a b)"
  shows "snd (update_pegged_out rows st t) = 1"
proof -
  from selected_in_table [OF assms(2)] obtain r where "r \<in> set rows" "txid r = t" by blast
  then show ?thesis using count_txid [OF assms(1), of r] by (simp add: update_pegged_out_def)
qed

lemma state_after_update:
  "r \<in> set (fst (update_pegged_out rows st t)) \<Longrightarrow> txid r = t \<Longrightarrow> pegged_out r = st"
proof (induction rows)
  case Nil
  then show ?case by (simp add: update_pegged_out_def)
next
  case (Cons a rows)
  from Cons.prems(1)
  have "r = (if txid a = t then a\<lparr>pegged_out := st\<rparr> else a) \<or> r \<in> set (fst (update_pegged_out rows st t))"
    by (simp add: update_pegged_out_def)
  then show ?case
  proof
    assume e: "r = (if txid a = t then a\<lparr>pegged_out := st\<rparr> else a)"
    show ?thesis
    proof (cases "txid a = t")
      case True
      then show ?thesis using e by simp
    next
      case False
      then show ?thesis using e Cons.prems(2) by simp
    qed
  next
    assume "r \<in> set (fst (update_pegged_out rows st t))"
    then show ?thesis using Cons.IH Cons.prems(2) by simp
  qed
qed

lemma row_after_update:
  "r \<in> set rows \<Longrightarrow> txid r = t \<Longrightarrow> r\<lparr>pegged_out := st\<rparr> \<in> set (fst (update_pegged_out rows st t))"
proof (induction rows)
  case Nil
  then show ?case by simp
next
  case (Cons a rows)
  have m: "fst (update_pegged_out (a # rows) st t)
     = (if txid a = t then a\<lparr>pegged_out := st\<rparr> else a) # fst (update_pegged_out rows st t)"
    by (simp add: update_pegged_out_def)
  show ?case
  proof (cases "r = a")
    case True
    then show ?thesis using Cons.prems(2) by (simp add: m)
  next
    case False
    then have "r \<in> set rows" using Cons.prems(1) by simp
    then show ?thesis using Cons.IH Cons.prems(2) by (simp only: m list.set insert_iff simp_thms)
  qed
qed

lemma update_other_rows:
  "r \<in> set (fst (update_pegged_out rows st t)) \<Longrightarrow> txid r \<noteq> t \<Longrightarrow> r \<in> set rows"
  by (auto simp: update_pegged_out_def split: if_splits)

lemma submit_and_write_exports:
  "exports (snd (submit_and_write L c s t p asset tempID exporter)) = exports s \<or>
   (\<exists>st. st \<noteq> pegOutNotYet \<and>
      exports (snd (submit_and_write L c s t p asset tempID exporter))
        = fst (update_pegged_out (exports s) st t))"
proof (cases "pegOut_method L c s exporter asset (Amount p) tempID (Seqnum p)")
  case (Return r)
  note pm = this
  note fr = pegOut_method_frame [OF Return]
  show ?thesis
  proof (cases "classify (fst r)")
    case (Return st)
    then have ne: "st \<noteq> pegOutNotYet" using classify_not_NotYet [of "fst r"] by auto
    have sw: "submit_and_write L c s t p asset tempID exporter = write_and_forward L (snd r) t p st"
      by (simp add: submit_and_write_def pm Return)
    show ?thesis
    proof (cases "ExecContext_fails L (snd r) st t")
      case True
      then show ?thesis using fr by (simp add: sw exports_write_and_forward)
    next
      case False
      then have "exports (snd (submit_and_write L c s t p asset tempID exporter))
                   = fst (update_pegged_out (exports s) st t)"
        using fr by (simp add: sw exports_write_and_forward)
      then show ?thesis using ne by blast
    qed
  qed (use pm fr in \<open>simp_all add: submit_and_write_def\<close>)
qed (simp_all add: submit_and_write_def)

lemma process_export_exports:
  "exports (snd (process_export L c s row)) = exports s \<or>
   (\<exists>st. st \<noteq> pegOutNotYet \<and>
      exports (snd (process_export L c s row)) = fst (update_pegged_out (exports s) st (fst row)))"
  using submit_and_write_exports [of L c s "fst row"]
  by (simp add: process_export_def split: option.splits)

lemma sint_succ:
  assumes "0 \<le> sint (n :: 64 word)"
  shows "uint (n + 1) = sint n + 1"
proof -
  have lt: "sint n < 2 ^ 63" using sint_lt [of n] by simp
  have "uint n = take_bit 64 (sint n)" using uint_sint [of n] by simp
  also have "\<dots> = sint n" using assms lt by (simp add: take_bit_int_eq_self)
  finally have e: "uint n = sint n" .
  have "uint (n + 1) = (uint n + 1) mod 2 ^ 64"
    by (simp add: uint_word_ariths(1))
  also have "\<dots> = uint n + 1" using e assms lt by simp
  finally show ?thesis using e by simp
qed

lemma process_export_decoded:
  assumes "json_Unmarshal L ref = Some p"
    and "xdr_SafeUnmarshal L (AssetXDR p) = Some asset"
    and "SetAddress L (TempAddr p) = Some tempID"
    and "SetAddress L (Exporter p) = Some exporter"
  shows "process_export L c s (t, ref) = submit_and_write L c s t p asset tempID exporter"
  using assms by (simp add: process_export_def)

lemma process_export_classified:
  assumes "json_Unmarshal L ref = Some p"
    and "xdr_SafeUnmarshal L (AssetXDR p) = Some asset"
    and "SetAddress L (TempAddr p) = Some tempID"
    and "SetAddress L (Exporter p) = Some exporter"
    and "pegOut_method L c s exporter asset (Amount p) tempID (Seqnum p) = Return (err, s1)"
  shows "process_export L c s (t, ref) =
      (case classify err of
         Return peggedOut \<Rightarrow> write_and_forward L s1 t p peggedOut
       | Panicked \<Rightarrow> (Panicked, s1)
       | Fatal \<Rightarrow> (Fatal, s1))"
  using assms by (simp add: process_export_def submit_and_write_def split: go.split)

lemma ex_decodes:
  "json_Unmarshal (ex_libs a) ex_ref = Some ex_pegOut"
  "xdr_SafeUnmarshal (ex_libs a) (AssetXDR ex_pegOut) = Some ex_native"
  "SetAddress (ex_libs a) (TempAddr ex_pegOut) = Some [1]"
  "SetAddress (ex_libs a) (Exporter ex_pegOut) = Some [2]"
  by (simp_all add: ex_libs_def ex_pegOut_def)

lemma ex_decodes_store_down:
  "json_Unmarshal (ex_libs_store_down a) ex_ref = Some ex_pegOut"
  "xdr_SafeUnmarshal (ex_libs_store_down a) (AssetXDR ex_pegOut) = Some ex_native"
  "SetAddress (ex_libs_store_down a) (TempAddr ex_pegOut) = Some [1]"
  "SetAddress (ex_libs_store_down a) (Exporter ex_pegOut) = Some [2]"
  by (simp_all add: ex_libs_store_down_def ex_libs_def ex_pegOut_def)

lemma ex_pegOut_method:
  "pegOut_method (ex_libs a) ex_custodian ex_engine [2] ex_native (Amount ex_pegOut) [1] (Seqnum ex_pegOut)
     = Return (a, ex_engine\<lparr>submissions := [(ex_pegout_tx, ''SCUSTODIAN'')]\<rparr>)"
  by (simp add: pegOut_method_def buildPegOutTx_def paymentOp_of_def Transaction_def SignAndSubmitTx_def
      ex_libs_def ex_pegOut_def ex_native_def ex_custodian_def ex_engine_def baseFee_def ex_pegout_tx_def)

lemma ex_pegOut_method_store_down:
  "pegOut_method (ex_libs_store_down a) ex_custodian ex_engine [2] ex_native (Amount ex_pegOut) [1]
       (Seqnum ex_pegOut)
     = Return (a, ex_engine\<lparr>submissions := [(ex_pegout_tx, ''SCUSTODIAN'')]\<rparr>)"
  by (simp add: pegOut_method_def buildPegOutTx_def paymentOp_of_def Transaction_def SignAndSubmitTx_def
      ex_libs_store_down_def ex_libs_def ex_pegOut_def ex_native_def ex_custodian_def ex_engine_def
      baseFee_def ex_pegout_tx_def)

lemma ex_process:
  "process_export (ex_libs a) ex_custodian ex_engine ([116], ex_ref) =
      (case classify a of
         Return peggedOut \<Rightarrow>
           write_and_forward (ex_libs a) (ex_engine\<lparr>submissions := [(ex_pegout_tx, ''SCUSTODIAN'')]\<rparr>)
             [116] ex_pegOut peggedOut
       | Panicked \<Rightarrow> (Panicked, ex_engine\<lparr>submissions := [(ex_pegout_tx, ''SCUSTODIAN'')]\<rparr>)
       | Fatal \<Rightarrow> (Fatal, ex_engine\<lparr>submissions := [(ex_pegout_tx, ''SCUSTODIAN'')]\<rparr>))"
  by (rule process_export_classified [OF ex_decodes ex_pegOut_method])

lemma ex_written:
  "write_and_forward (ex_libs a) (ex_engine\<lparr>submissions := [(ex_pegout_tx, ''SCUSTODIAN'')]\<rparr>)
       [116] ex_pegOut st =
     (Return (),
      \<lparr>exports = [\<lparr>txid = [116], pegout_json = ex_ref, pegged_out = st\<rparr>],
       submissions = [(ex_pegout_tx, ''SCUSTODIAN'')],
       pegouts = (if st = pegOutOK \<or> st = pegOutFail then [ex_pegOut\<lparr>State := st, TxID := [116]\<rparr>]
                  else [])\<rparr>)"
  by (simp add: write_and_forward_def update_pegged_out_def RowsAffected_def ex_engine_def ex_libs_def
      Let_def)

lemma ex_process_store_down:
  "process_export (ex_libs_store_down None) ex_custodian ex_engine ([116], ex_ref) =
     (Fatal, ex_engine\<lparr>submissions := [(ex_pegout_tx, ''SCUSTODIAN'')]\<rparr>)"
proof -
  have f: "ExecContext_fails (ex_libs_store_down None)
             (ex_engine\<lparr>submissions := [(ex_pegout_tx, ''SCUSTODIAN'')]\<rparr>) pegOutOK [116]"
    by (simp add: ex_libs_store_down_def)
  show ?thesis
    by (simp add: process_export_classified [OF ex_decodes_store_down ex_pegOut_method_store_down]
        classify_cases write_and_forward_store_fails [OF f])
qed

subsection \<open>Classification of the submission outcome\<close>

text \<open>
  Claim C1, as amended. For an export record the engine processes (its payload,
  asset and addresses decode), let \<open>err\<close> be the error that the method
  \<^verbatim>\<open>pegOut\<close> returns and let the store execute the update of the row. If there
  is no error, the state written to the row is ok. If the root of the error is
  no ledger-client error, or is a ledger-client error whose result codes can be
  read and whose transaction result code is neither \<^verbatim>\<open>tx_bad_seq\<close> nor the string
  the code compares it with, the state written is fail. If the root is a
  ledger-client error whose result codes cannot be read, or if the store fails to
  execute the update, the engine ends with a fatal error and the row keeps the
  state it had.
\<close>

theorem pegOut_state_written:
  assumes "json_Unmarshal L ref = Some p"
    and "xdr_SafeUnmarshal L (AssetXDR p) = Some asset"
    and "SetAddress L (TempAddr p) = Some tempID"
    and "SetAddress L (Exporter p) = Some exporter"
    and "pegOut_method L c s exporter asset (Amount p) tempID (Seqnum p) = Return (err, s1)"
  shows "(err = None \<and> \<not> ExecContext_fails L s1 pegOutOK t \<longrightarrow>
            exports (snd (process_export L c s (t, ref))) = fst (update_pegged_out (exports s) pegOutOK t))
       \<and> (err = Some OtherError \<and> \<not> ExecContext_fails L s1 pegOutFail t \<longrightarrow>
            exports (snd (process_export L c s (t, ref))) = fst (update_pegged_out (exports s) pegOutFail t))
       \<and> (\<forall>rc. err = Some (EquatorError (Some rc)) \<and> TransactionCode rc \<noteq> tx_bad_seq \<and>
               TransactionCode rc \<noteq> TransactionResultCodeTxBadSeq_String \<and>
               \<not> ExecContext_fails L s1 pegOutFail t \<longrightarrow>
            exports (snd (process_export L c s (t, ref))) = fst (update_pegged_out (exports s) pegOutFail t))
       \<and> (err = Some (EquatorError None) \<longrightarrow>
            process_export L c s (t, ref) = (Fatal, s1) \<and> exports s1 = exports s)
       \<and> (\<forall>st. classify err = Return st \<and> ExecContext_fails L s1 st t \<longrightarrow>
            process_export L c s (t, ref) = (Fatal, s1) \<and> exports s1 = exports s)"
proof -
  have fr: "exports s1 = exports s"
    using pegOut_method_frame [OF assms(5)] by simp
  note pe = process_export_classified [OF assms, of t]
  show ?thesis
    by (simp add: pe classify_cases exports_write_and_forward write_and_forward_store_fails fr)
qed

text \<open>
  The theorem at the instance, the main ledger answering with a ledger-client
  error of transaction result code \<^verbatim>\<open>tx_failed\<close>: the row is left in state fail.
\<close>

theorem pegOut_state_written_witness:
  "json_Unmarshal (ex_libs (Some (EquatorError (Some \<lparr>TransactionCode = ''tx_failed'', OperationCodes = []\<rparr>))))
     ex_ref = Some ex_pegOut \<and>
   exports (snd (process_export
      (ex_libs (Some (EquatorError (Some \<lparr>TransactionCode = ''tx_failed'', OperationCodes = []\<rparr>))))
      ex_custodian ex_engine ([116], ex_ref)))
   = [\<lparr>txid = [116], pegout_json = ex_ref, pegged_out = pegOutFail\<rparr>]"
proof -
  let ?rc = "\<lparr>TransactionCode = ''tx_failed'', OperationCodes = []\<rparr>"
  let ?L = "ex_libs (Some (EquatorError (Some ?rc)))"
  have c: "TransactionCode ?rc \<noteq> tx_bad_seq \<and> TransactionCode ?rc \<noteq> TransactionResultCodeTxBadSeq_String"
    by (simp add: tx_bad_seq_def TransactionResultCodeTxBadSeq_String_def)
  have f: "\<not> ExecContext_fails ?L (ex_engine\<lparr>submissions := [(ex_pegout_tx, ''SCUSTODIAN'')]\<rparr>)
               pegOutFail [116]"
    by (simp add: ex_libs_def)
  from pegOut_state_written [OF ex_decodes ex_pegOut_method, of "Some (EquatorError (Some ?rc))" "[116]"]
    c f
  have "exports (snd (process_export ?L ex_custodian ex_engine ([116], ex_ref)))
     = fst (update_pegged_out (exports ex_engine) pegOutFail [116])"
    by blast
  then show ?thesis
    by (simp add: update_pegged_out_def ex_engine_def ex_decodes)
qed

text \<open>
  Claim C1 as stated fails, three times. A ledger-client error whose result codes
  cannot be read is a submission error without the bad-sequence code, and the
  state written for it is not fail: the engine ends with a fatal error after the
  submission and the row stays in state not-yet. A ledger-client error with the
  transaction result code \<^verbatim>\<open>tx_bad_seq\<close> is not written as retry: the code
  compares the result code with \<^verbatim>\<open>xdr.TransactionResultCodeTxBadSeq.String()\<close>,
  the name of the constant, so the state written is fail and the record is sent
  to the finalizer. And a submission without error for which the store fails to
  execute the update is not written as ok: the engine ends with a fatal error and
  the row stays in state not-yet.
\<close>

theorem classification_counterexample:
  "process_export (ex_libs (Some (EquatorError None))) ex_custodian ex_engine ([116], ex_ref)
     = (Fatal, ex_engine\<lparr>submissions := [(ex_pegout_tx, ''SCUSTODIAN'')]\<rparr>) \<and>
   exports ex_engine = [\<lparr>txid = [116], pegout_json = ex_ref, pegged_out = pegOutNotYet\<rparr>] \<and>
   process_export
       (ex_libs (Some (EquatorError (Some \<lparr>TransactionCode = ''tx_bad_seq'', OperationCodes = []\<rparr>))))
       ex_custodian ex_engine ([116], ex_ref)
     = (Return (),
        \<lparr>exports = [\<lparr>txid = [116], pegout_json = ex_ref, pegged_out = pegOutFail\<rparr>],
         submissions = [(ex_pegout_tx, ''SCUSTODIAN'')],
         pegouts = [ex_pegOut\<lparr>State := pegOutFail, TxID := [116]\<rparr>]\<rparr>) \<and>
   respond (ex_libs_store_down None) (submissions ex_engine) ex_pegout_tx = None \<and>
   process_export (ex_libs_store_down None) ex_custodian ex_engine ([116], ex_ref)
     = (Fatal, ex_engine\<lparr>submissions := [(ex_pegout_tx, ''SCUSTODIAN'')]\<rparr>)"
proof (intro conjI)
  show "process_export (ex_libs (Some (EquatorError None))) ex_custodian ex_engine ([116], ex_ref)
     = (Fatal, ex_engine\<lparr>submissions := [(ex_pegout_tx, ''SCUSTODIAN'')]\<rparr>)"
    by (simp add: ex_process classify_cases)
  show "exports ex_engine = [\<lparr>txid = [116], pegout_json = ex_ref, pegged_out = pegOutNotYet\<rparr>]"
    by (simp add: ex_engine_def)
  have c: "TransactionCode \<lparr>TransactionCode = ''tx_bad_seq'', OperationCodes = []\<rparr>
             \<noteq> TransactionResultCodeTxBadSeq_String"
    by (simp add: TransactionResultCodeTxBadSeq_String_def)
  show "process_export
       (ex_libs (Some (EquatorError (Some \<lparr>TransactionCode = ''tx_bad_seq'', OperationCodes = []\<rparr>))))
       ex_custodian ex_engine ([116], ex_ref)
     = (Return (),
        \<lparr>exports = [\<lparr>txid = [116], pegout_json = ex_ref, pegged_out = pegOutFail\<rparr>],
         submissions = [(ex_pegout_tx, ''SCUSTODIAN'')],
         pegouts = [ex_pegOut\<lparr>State := pegOutFail, TxID := [116]\<rparr>]\<rparr>)"
    by (simp add: ex_process classify_cases(5) [OF c] ex_written)
  show "respond (ex_libs_store_down None) (submissions ex_engine) ex_pegout_tx = None"
    by (simp add: ex_libs_store_down_def ex_libs_def)
  show "process_export (ex_libs_store_down None) ex_custodian ex_engine ([116], ex_ref)
     = (Fatal, ex_engine\<lparr>submissions := [(ex_pegout_tx, ''SCUSTODIAN'')]\<rparr>)"
    by (rule ex_process_store_down)
qed

subsection \<open>Monotone peg-out state\<close>

lemma row_monotone_refl: "row_monotone r r"
  by (simp add: row_monotone_def)

lemma allowed_transition_trans:
  "allowed_transition a b \<Longrightarrow> allowed_transition b c \<Longrightarrow> allowed_transition a c"
  by (cases a; cases b; cases c) simp_all

lemma row_monotone_trans: "row_monotone a b \<Longrightarrow> row_monotone b c \<Longrightarrow> row_monotone a c"
  unfolding row_monotone_def using allowed_transition_trans by metis

lemma allowed_from_pending:
  "a = pegOutNotYet \<or> a = pegOutRetry \<Longrightarrow> b \<noteq> pegOutNotYet \<Longrightarrow> b = a \<or> allowed_transition a b"
  by (cases a; cases b) simp_all

lemma update_monotone:
  assumes "\<forall>r\<in>set rows. txid r = t \<longrightarrow> pegged_out r = pegOutNotYet \<or> pegged_out r = pegOutRetry"
    and "st \<noteq> pegOutNotYet"
  shows "list_all2 row_monotone rows (fst (update_pegged_out rows st t))"
  using assms(1)
proof (induction rows)
  case Nil
  then show ?case by (simp add: update_pegged_out_def)
next
  case (Cons a rows)
  have "row_monotone a (if txid a = t then a\<lparr>pegged_out := st\<rparr> else a)"
    using Cons.prems allowed_from_pending [OF _ assms(2), of "pegged_out a"]
    by (auto simp: row_monotone_def)
  then show ?case using Cons by (simp add: update_pegged_out_def)
qed

lemma run_rows_monotone:
  assumes "distinct (map fst todo)"
    and "\<forall>row\<in>set todo. \<forall>r\<in>set (exports s). txid r = fst row \<longrightarrow>
           pegged_out r = pegOutNotYet \<or> pegged_out r = pegOutRetry"
  shows "list_all2 row_monotone (exports s) (exports (snd (run_rows L c s todo)))"
  using assms
proof (induction todo arbitrary: s)
  case Nil
  then show ?case by (simp add: list_all2_refl row_monotone_refl)
next
  case (Cons row todo)
  let ?s1 = "snd (process_export L c s row)"
  have pend: "\<forall>r\<in>set (exports s). txid r = fst row \<longrightarrow>
           pegged_out r = pegOutNotYet \<or> pegged_out r = pegOutRetry"
    using Cons.prems(2) by simp
  have step: "list_all2 row_monotone (exports s) (exports ?s1)"
    using process_export_exports [of L c s row] update_monotone [OF pend]
    by (auto simp: list_all2_refl row_monotone_refl)
  have keep: "\<forall>row'\<in>set todo. \<forall>r\<in>set (exports ?s1). txid r = fst row' \<longrightarrow>
           pegged_out r = pegOutNotYet \<or> pegged_out r = pegOutRetry"
  proof (intro ballI impI)
    fix row' r
    assume a: "row' \<in> set todo" "r \<in> set (exports ?s1)" "txid r = fst row'"
    have ne: "fst row' \<noteq> fst row" using Cons.prems(1) a(1) by (auto simp: image_iff)
    have "r \<in> set (exports s)"
      using process_export_exports [of L c s row] a(2,3) ne update_other_rows by metis
    then show "pegged_out r = pegOutNotYet \<or> pegged_out r = pegOutRetry"
      using Cons.prems(2) a(1,3) by simp
  qed
  have rest: "list_all2 row_monotone (exports ?s1) (exports (snd (run_rows L c ?s1 todo)))"
    using Cons.IH [OF _ keep] Cons.prems(1) by simp
  have tr: "list_all2 row_monotone (exports s) (exports (snd (run_rows L c ?s1 todo)))"
    using list_all2_trans [OF _ step rest] row_monotone_trans by blast
  show ?case
  proof (cases "process_export L c s row")
    case (Pair e s1)
    then show ?thesis using tr step by (cases e) simp_all
  qed
qed

lemma pending_rows_only:
  assumes pk: "distinct (map txid rows)"
    and sel: "(t, ref) \<in> set (select_exports rows pegOutNotYet pegOutRetry)"
    and r: "r \<in> set rows" "txid r = t"
  shows "pegged_out r = pegOutNotYet \<or> pegged_out r = pegOutRetry"
proof -
  from selected_in_table [OF sel] obtain r' where r': "r' \<in> set rows" "txid r' = t"
      "pegged_out r' = pegOutNotYet \<or> pegged_out r' = pegOutRetry" by blast
  have "r = r'" using pk r r'(1,2) by (metis distinct_map inj_onD)
  then show ?thesis using r'(3) by simp
qed

text \<open>
  Claim C2. The table \<^verbatim>\<open>exports\<close> has the transaction id as its primary key.
  Then one wake-up of \<^verbatim>\<open>pegOutFromExports\<close>, however it ends, leaves every row
  with its key and payload and with a state that is the one before or is reached
  from it by one of the transitions not-yet to retry, not-yet to ok, not-yet to
  fail, retry to ok, retry to fail (a row in state retry for which the engine
  writes retry again keeps its state). The rows it selects are rows
  of the table in state not-yet or retry; the state the loop body writes is ok,
  retry or fail, never not-yet; a row in state ok or fail is left as it is.
\<close>

theorem pegged_out_monotone:
  assumes pk: "distinct (map txid (exports s))"
  shows "list_all2 row_monotone (exports s) (exports (snd (pegOutFromExports_wake L c s)))
     \<and> (\<forall>row\<in>set (select_exports (exports s) pegOutNotYet pegOutRetry).
           \<exists>r\<in>set (exports s). txid r = fst row \<and> pegout_json r = snd row \<and>
             (pegged_out r = pegOutNotYet \<or> pegged_out r = pegOutRetry))
     \<and> (\<forall>row. exports (snd (process_export L c s row)) = exports s \<or>
           (\<exists>st. (st = pegOutOK \<or> st = pegOutRetry \<or> st = pegOutFail) \<and>
              exports (snd (process_export L c s row)) = fst (update_pegged_out (exports s) st (fst row))))
     \<and> (\<forall>i<length (exports s).
           pegged_out (exports s ! i) = pegOutOK \<or> pegged_out (exports s ! i) = pegOutFail \<longrightarrow>
           exports (snd (pegOutFromExports_wake L c s)) ! i = exports s ! i)"
proof (intro conjI)
  let ?todo = "select_exports (exports s) pegOutNotYet pegOutRetry"
  show sel: "\<forall>row\<in>set ?todo.
           \<exists>r\<in>set (exports s). txid r = fst row \<and> pegout_json r = snd row \<and>
             (pegged_out r = pegOutNotYet \<or> pegged_out r = pegOutRetry)"
    by (auto simp: select_exports_def)
  have pend: "\<forall>row\<in>set ?todo. \<forall>r\<in>set (exports s). txid r = fst row \<longrightarrow>
           pegged_out r = pegOutNotYet \<or> pegged_out r = pegOutRetry"
  proof (intro ballI impI)
    fix row r
    assume a: "row \<in> set ?todo" "r \<in> set (exports s)" "txid r = fst row"
    have "(fst row, snd row) \<in> set ?todo" using a(1) by simp
    from pending_rows_only [OF pk this a(2,3)]
    show "pegged_out r = pegOutNotYet \<or> pegged_out r = pegOutRetry" .
  qed
  show mono: "list_all2 row_monotone (exports s) (exports (snd (pegOutFromExports_wake L c s)))"
  proof (cases "ForQueryRows_fails L s")
    case True
    then show ?thesis by (simp add: pegOutFromExports_wake_def list_all2_refl row_monotone_refl)
  next
    case False
    then show ?thesis
      using run_rows_monotone [OF distinct_selected [OF pk] pend]
      by (simp add: pegOutFromExports_wake_def)
  qed
  show "\<forall>row. exports (snd (process_export L c s row)) = exports s \<or>
         (\<exists>st. (st = pegOutOK \<or> st = pegOutRetry \<or> st = pegOutFail) \<and>
            exports (snd (process_export L c s row)) = fst (update_pegged_out (exports s) st (fst row)))"
  proof
    fix row
    from process_export_exports [of L c s row]
    show "exports (snd (process_export L c s row)) = exports s \<or>
         (\<exists>st. (st = pegOutOK \<or> st = pegOutRetry \<or> st = pegOutFail) \<and>
            exports (snd (process_export L c s row)) = fst (update_pegged_out (exports s) st (fst row)))"
      by (metis pegOutState.exhaust)
  qed
  show "\<forall>i<length (exports s).
           pegged_out (exports s ! i) = pegOutOK \<or> pegged_out (exports s ! i) = pegOutFail \<longrightarrow>
           exports (snd (pegOutFromExports_wake L c s)) ! i = exports s ! i"
  proof (intro allI impI)
    fix i
    assume i: "i < length (exports s)"
      and st: "pegged_out (exports s ! i) = pegOutOK \<or> pegged_out (exports s ! i) = pegOutFail"
    have "row_monotone (exports s ! i) (exports (snd (pegOutFromExports_wake L c s)) ! i)"
      using mono i by (simp add: list_all2_conv_all_nth)
    then show "exports (snd (pegOutFromExports_wake L c s)) ! i = exports s ! i"
      using st by (auto simp: row_monotone_def)
  qed
qed

text \<open>
  The instance: the main ledger accepts the submission, and the wake-up takes the
  row from not-yet to ok.
\<close>

lemma ex_process_ok:
  "process_export (ex_libs None) ex_custodian ex_engine ([116], ex_ref) =
     (Return (),
      \<lparr>exports = [\<lparr>txid = [116], pegout_json = ex_ref, pegged_out = pegOutOK\<rparr>],
       submissions = [(ex_pegout_tx, ''SCUSTODIAN'')],
       pegouts = [ex_pegOut\<lparr>State := pegOutOK, TxID := [116]\<rparr>]\<rparr>)"
  by (simp add: ex_process classify_cases ex_written)

lemma ex_wake_ok:
  "pegOutFromExports_wake (ex_libs None) ex_custodian ex_engine =
     (Return (),
      \<lparr>exports = [\<lparr>txid = [116], pegout_json = ex_ref, pegged_out = pegOutOK\<rparr>],
       submissions = [(ex_pegout_tx, ''SCUSTODIAN'')],
       pegouts = [ex_pegOut\<lparr>State := pegOutOK, TxID := [116]\<rparr>]\<rparr>)"
proof -
  have sel: "select_exports (exports ex_engine) pegOutNotYet pegOutRetry = [([116], ex_ref)]"
    by (simp add: select_exports_def ex_engine_def)
  have q: "\<not> ForQueryRows_fails (ex_libs None) ex_engine"
    by (simp add: ex_libs_def)
  show ?thesis
    by (simp add: pegOutFromExports_wake_def q sel ex_process_ok)
qed

theorem pegged_out_monotone_witness:
  "distinct (map txid (exports ex_engine)) \<and>
   exports (snd (pegOutFromExports_wake (ex_libs None) ex_custodian ex_engine))
     = [\<lparr>txid = [116], pegout_json = ex_ref, pegged_out = pegOutOK\<rparr>] \<and>
   list_all2 row_monotone [\<lparr>txid = [116], pegout_json = ex_ref, pegged_out = pegOutNotYet\<rparr>]
     [\<lparr>txid = [116], pegout_json = ex_ref, pegged_out = pegOutOK\<rparr>]"
proof -
  have d: "distinct (map txid (exports ex_engine))" by (simp add: ex_engine_def)
  have e: "exports ex_engine = [\<lparr>txid = [116], pegout_json = ex_ref, pegged_out = pegOutNotYet\<rparr>]"
    by (simp add: ex_engine_def)
  from pegged_out_monotone [OF d, of "ex_libs None" ex_custodian]
  have "list_all2 row_monotone (exports ex_engine)
          (exports (snd (pegOutFromExports_wake (ex_libs None) ex_custodian ex_engine)))"
    by (rule conjunct1)
  then show ?thesis using d unfolding ex_wake_ok e by simp
qed

subsection \<open>The peg-out transaction\<close>

lemma native_payment:
  assumes "Type asset = AssetTypeNative"
    and "\<not> bad_addr tempAddr" and "\<not> bad_addr exporterAddr" and "\<not> bad_addr custodianAddr"
    and "\<not> bad_amt (NativeAmount (HorizonString amt))"
  shows "buildPegOutTx addr bad_addr bad_amt custodianAddr exporterAddr tempAddr net asset amt seqnum =
           Return (Inr [Network net, SourceAccount tempAddr, Sequence (seqnum + 1), BaseFee 100,
                 AccountMerge [Destination exporterAddr],
                 PaymentOp (Payment [OpSourceAccount custodianAddr, Destination exporterAddr,
                                     NativeAmount (HorizonString amt)])])"
  using assms by (simp add: buildPegOutTx_def paymentOp_of_def Transaction_def baseFee_def Let_def)

text \<open>
  Claim C4, as amended. Take a selected export record of the native asset, with
  amount \<open>Amount p\<close> (50 in the claim) and recorded sequence number \<open>Seqnum p\<close>,
  whose payload and addresses decode and whose addresses and amount the builder
  takes. Processing it makes exactly one submission to the main ledger, signed
  with the custodian's seed. The transaction submitted has the temporary account
  as its source and exactly two operations, in this order: an account merge to
  the exporter, then a payment of the amount of the native asset from the
  custodian's account to the exporter. Its sequence number is the recorded one
  plus one (as 64-bit numbers; as integers too when the recorded one is not
  negative). If the main ledger reports no error and the store executes the
  update of the row, the loop goes on and the row of the export is in state ok.
  If the main ledger reports no error and the store fails to execute the update,
  the engine ends with a fatal error and the table is left as it was.
\<close>

theorem peg_out_of_native_export:
  fixes tx :: TransactionBuilder
  assumes pk: "distinct (map txid (exports s))"
    and sel: "(t, ref) \<in> set (select_exports (exports s) pegOutNotYet pegOutRetry)"
    and dec: "json_Unmarshal L ref = Some p" "xdr_SafeUnmarshal L (AssetXDR p) = Some asset"
      "SetAddress L (TempAddr p) = Some tempID" "SetAddress L (Exporter p) = Some exporter"
    and nat: "Type asset = AssetTypeNative"
    and tx: "tx = [Network (network c), SourceAccount (Address L tempID), Sequence (Seqnum p + 1),
                  BaseFee 100, AccountMerge [Destination (Address L exporter)],
                  PaymentOp (Payment [OpSourceAccount (Address L (AccountID c)),
                                      Destination (Address L exporter),
                                      NativeAmount (HorizonString (Amount p))])]"
    and acc: "\<not> bad_address L (Address L tempID)" "\<not> bad_address L (Address L exporter)"
      "\<not> bad_address L (Address L (AccountID c))"
      "\<not> bad_amount L (NativeAmount (HorizonString (Amount p)))"
  shows "submissions (snd (process_export L c s (t, ref))) = submissions s @ [(tx, seed c)]
       \<and> operations tx = [AccountMerge [Destination (Address L exporter)],
                           PaymentOp (Payment [OpSourceAccount (Address L (AccountID c)),
                                               Destination (Address L exporter),
                                               NativeAmount (HorizonString (Amount p))])]
       \<and> (0 \<le> sint (Seqnum p) \<longrightarrow> uint (Seqnum p + 1) = sint (Seqnum p) + 1)
       \<and> (respond L (submissions s) tx = None \<and>
          \<not> ExecContext_fails L (s\<lparr>submissions := submissions s @ [(tx, seed c)]\<rparr>) pegOutOK t \<longrightarrow>
            fst (process_export L c s (t, ref)) = Return () \<and>
            (\<exists>r\<in>set (exports (snd (process_export L c s (t, ref)))). txid r = t) \<and>
            (\<forall>r\<in>set (exports (snd (process_export L c s (t, ref)))). txid r = t \<longrightarrow> pegged_out r = pegOutOK))
       \<and> (respond L (submissions s) tx = None \<and>
          ExecContext_fails L (s\<lparr>submissions := submissions s @ [(tx, seed c)]\<rparr>) pegOutOK t \<longrightarrow>
            fst (process_export L c s (t, ref)) = Fatal \<and>
            exports (snd (process_export L c s (t, ref))) = exports s)"
proof -
  let ?s1 = "s\<lparr>submissions := submissions s @ [(tx, seed c)]\<rparr>"
  have b: "buildPegOutTx (Address L) (bad_address L) (bad_amount L) (Address L (AccountID c))
             (Address L exporter) (Address L tempID) (network c) asset (Amount p) (Seqnum p)
           = Return (Inr tx)"
    unfolding tx
    by (rule native_payment [where bad_addr = "bad_address L" and bad_amt = "bad_amount L", OF nat acc])
  have pm: "pegOut_method L c s exporter asset (Amount p) tempID (Seqnum p)
      = Return (respond L (submissions s) tx, ?s1)"
    by (simp add: pegOut_method_def b SignAndSubmitTx_def)
  note pe = process_export_classified [OF dec pm, of t]
  have sub_w: "\<And>st. submissions (snd (write_and_forward L ?s1 t p st)) = submissions s @ [(tx, seed c)]"
    by (simp add: write_and_forward_def Let_def RowsAffected_def)
  have subm: "submissions (snd (process_export L c s (t, ref))) = submissions s @ [(tx, seed c)]"
    by (cases "classify (respond L (submissions s) tx)") (simp_all add: pe sub_w)
  have ops: "operations tx = [AccountMerge [Destination (Address L exporter)],
                           PaymentOp (Payment [OpSourceAccount (Address L (AccountID c)),
                                               Destination (Address L exporter),
                                               NativeAmount (HorizonString (Amount p))])]"
    by (simp add: tx operations_def)
  have ok: "fst (process_export L c s (t, ref)) = Return () \<and>
            (\<exists>r\<in>set (exports (snd (process_export L c s (t, ref)))). txid r = t) \<and>
            (\<forall>r\<in>set (exports (snd (process_export L c s (t, ref)))). txid r = t \<longrightarrow> pegged_out r = pegOutOK)"
    if succ: "respond L (submissions s) tx = None" and up: "\<not> ExecContext_fails L ?s1 pegOutOK t"
  proof -
    have n1: "snd (update_pegged_out (exports s) pegOutOK t) = 1"
      by (rule pending_row_count [OF pk sel])
    have pe': "process_export L c s (t, ref) = write_and_forward L ?s1 t p pegOutOK"
      by (simp add: pe succ classify_cases)
    have f: "fst (process_export L c s (t, ref)) = Return ()"
      using n1 up by (simp add: pe' write_and_forward_def Let_def RowsAffected_def)
    have e: "exports (snd (process_export L c s (t, ref))) = fst (update_pegged_out (exports s) pegOutOK t)"
      using up by (simp add: pe' exports_write_and_forward)
    from selected_in_table [OF sel] obtain r where r: "r \<in> set (exports s)" "txid r = t" by blast
    have "r\<lparr>pegged_out := pegOutOK\<rparr> \<in> set (fst (update_pegged_out (exports s) pegOutOK t))"
      by (rule row_after_update [OF r])
    moreover have "txid (r\<lparr>pegged_out := pegOutOK\<rparr>) = t" using r(2) by simp
    ultimately have ex: "\<exists>r\<in>set (exports (snd (process_export L c s (t, ref)))). txid r = t"
      unfolding e by blast
    have al: "\<forall>r\<in>set (exports (snd (process_export L c s (t, ref)))). txid r = t \<longrightarrow> pegged_out r = pegOutOK"
      unfolding e using state_after_update by blast
    show ?thesis using f ex al by simp
  qed
  have down: "fst (process_export L c s (t, ref)) = Fatal \<and>
            exports (snd (process_export L c s (t, ref))) = exports s"
    if succ: "respond L (submissions s) tx = None" and f: "ExecContext_fails L ?s1 pegOutOK t"
    by (simp add: pe succ classify_cases write_and_forward_store_fails [OF f])
  show ?thesis
    using subm ops sint_succ [of "Seqnum p"] ok down by blast
qed

lemma ex_selected:
  "([116], ex_ref) \<in> set (select_exports (exports ex_engine) pegOutNotYet pegOutRetry)"
  by (simp add: select_exports_def ex_engine_def)

lemma ex_distinct: "distinct (map txid (exports ex_engine))"
  by (simp add: ex_engine_def)

text \<open>
  The instance of the claim: 50 units of the native asset, sequence number 7,
  a main ledger that accepts and a store that executes the update.
\<close>

theorem peg_out_of_native_export_witness:
  "Amount ex_pegOut = 50 \<and> Seqnum ex_pegOut = 7 \<and> Type ex_native = AssetTypeNative \<and>
   respond (ex_libs None) (submissions ex_engine) ex_pegout_tx = None \<and>
   submissions (snd (process_export (ex_libs None) ex_custodian ex_engine ([116], ex_ref))) =
     [(ex_pegout_tx, ''SCUSTODIAN'')] \<and>
   operations ex_pegout_tx =
     [AccountMerge [Destination ''GEXPORTER''],
      PaymentOp (Payment [OpSourceAccount ''GCUSTODIAN'', Destination ''GEXPORTER'',
                          NativeAmount (HorizonString 50)])] \<and>
   fst (process_export (ex_libs None) ex_custodian ex_engine ([116], ex_ref)) = Return () \<and>
   map pegged_out (exports (snd (process_export (ex_libs None) ex_custodian ex_engine ([116], ex_ref))))
     = [pegOutOK]"
proof -
  have n: "Type ex_native = AssetTypeNative" by (simp add: ex_native_def)
  have tx: "ex_pegout_tx = [Network (network ex_custodian), SourceAccount (Address (ex_libs None) [1]),
                  Sequence (Seqnum ex_pegOut + 1),
                  BaseFee 100, AccountMerge [Destination (Address (ex_libs None) [2])],
                  PaymentOp (Payment [OpSourceAccount (Address (ex_libs None) (AccountID ex_custodian)),
                                      Destination (Address (ex_libs None) [2]),
                                      NativeAmount (HorizonString (Amount ex_pegOut))])]"
    by (simp add: ex_pegout_tx_def ex_libs_def ex_custodian_def ex_pegOut_def)
  have acc: "\<not> bad_address (ex_libs None) (Address (ex_libs None) [1])"
    "\<not> bad_address (ex_libs None) (Address (ex_libs None) [2])"
    "\<not> bad_address (ex_libs None) (Address (ex_libs None) (AccountID ex_custodian))"
    "\<not> bad_amount (ex_libs None) (NativeAmount (HorizonString (Amount ex_pegOut)))"
    by (simp_all add: ex_libs_def)
  have ok: "respond (ex_libs None) (submissions ex_engine) ex_pegout_tx = None" by (simp add: ex_libs_def)
  have up: "\<not> ExecContext_fails (ex_libs None)
               (ex_engine\<lparr>submissions := submissions ex_engine @ [(ex_pegout_tx, seed ex_custodian)]\<rparr>)
               pegOutOK [116]"
    by (simp add: ex_libs_def)
  note th = peg_out_of_native_export [OF ex_distinct ex_selected ex_decodes n tx acc]
  have 1: "submissions (snd (process_export (ex_libs None) ex_custodian ex_engine ([116], ex_ref)))
      = [(ex_pegout_tx, ''SCUSTODIAN'')]"
    using th by (simp add: ex_engine_def ex_custodian_def)
  have 2: "fst (process_export (ex_libs None) ex_custodian ex_engine ([116], ex_ref)) = Return ()"
    using th ok up by blast
  have 3: "map pegged_out (exports (snd (process_export (ex_libs None) ex_custodian ex_engine ([116], ex_ref))))
     = [pegOutOK]"
    by (simp add: ex_process_ok)
  have 4: "operations ex_pegout_tx =
     [AccountMerge [Destination ''GEXPORTER''],
      PaymentOp (Payment [OpSourceAccount ''GCUSTODIAN'', Destination ''GEXPORTER'',
                          NativeAmount (HorizonString 50)])]"
    by (simp add: operations_def ex_pegout_tx_def)
  show ?thesis using n ok 1 2 3 4 by (simp add: ex_pegOut_def)
qed

text \<open>
  Claim C4 as stated fails: a successful submission does not always set the
  state to ok. The main ledger accepts the transaction of the export, the store
  fails to execute the update of the row (the context is cancelled after the
  submission, say), and the engine ends with a fatal error, the row in state
  not-yet and nothing sent to the finalizer.
\<close>

theorem store_failure_counterexample:
  "respond (ex_libs_store_down None) (submissions ex_engine) ex_pegout_tx = None \<and>
   fst (process_export (ex_libs_store_down None) ex_custodian ex_engine ([116], ex_ref)) = Fatal \<and>
   submissions (snd (process_export (ex_libs_store_down None) ex_custodian ex_engine ([116], ex_ref)))
     = [(ex_pegout_tx, ''SCUSTODIAN'')] \<and>
   exports (snd (process_export (ex_libs_store_down None) ex_custodian ex_engine ([116], ex_ref)))
     = [\<lparr>txid = [116], pegout_json = ex_ref, pegged_out = pegOutNotYet\<rparr>] \<and>
   pegouts (snd (process_export (ex_libs_store_down None) ex_custodian ex_engine ([116], ex_ref))) = []"
  unfolding ex_process_store_down
  by (simp add: ex_libs_store_down_def ex_libs_def ex_engine_def)

subsection \<open>Forwarding to the finalizer\<close>

lemma write_and_forward_outcome:
  assumes "snd (update_pegged_out (exports s1) st t) = 1"
  shows "(exports (snd (write_and_forward L s1 t p st)) = exports s1 \<and>
          pegouts (snd (write_and_forward L s1 t p st)) = pegouts s1) \<or>
         (exports (snd (write_and_forward L s1 t p st)) = fst (update_pegged_out (exports s1) st t) \<and>
          pegouts (snd (write_and_forward L s1 t p st)) =
            (if st = pegOutOK \<or> st = pegOutFail then pegouts s1 @ [p\<lparr>State := st, TxID := t\<rparr>]
             else pegouts s1))"
proof (cases "ExecContext_fails L s1 st t")
  case True
  then show ?thesis by (simp add: write_and_forward_def)
next
  case False
  then have "exports (snd (write_and_forward L s1 t p st)) = fst (update_pegged_out (exports s1) st t) \<and>
          pegouts (snd (write_and_forward L s1 t p st)) =
            (if st = pegOutOK \<or> st = pegOutFail then pegouts s1 @ [p\<lparr>State := st, TxID := t\<rparr>]
             else pegouts s1)"
    using assms by (simp add: write_and_forward_def Let_def RowsAffected_def)
  then show ?thesis by (rule disjI2)
qed

lemma submit_and_write_outcome:
  assumes pk: "distinct (map txid (exports s))"
    and sel: "(t, ref) \<in> set (select_exports (exports s) pegOutNotYet pegOutRetry)"
  shows "(exports (snd (submit_and_write L c s t p asset tempID exporter)) = exports s \<and>
          pegouts (snd (submit_and_write L c s t p asset tempID exporter)) = pegouts s) \<or>
         (\<exists>st. st \<noteq> pegOutNotYet \<and>
            exports (snd (submit_and_write L c s t p asset tempID exporter))
              = fst (update_pegged_out (exports s) st t) \<and>
            pegouts (snd (submit_and_write L c s t p asset tempID exporter)) =
              (if st = pegOutOK \<or> st = pegOutFail then pegouts s @ [p\<lparr>State := st, TxID := t\<rparr>]
               else pegouts s))"
proof (cases "pegOut_method L c s exporter asset (Amount p) tempID (Seqnum p)")
  case (Return r)
  note pm = this
  note fr = pegOut_method_frame [OF Return]
  show ?thesis
  proof (cases "classify (fst r)")
    case (Return st)
    then have ne: "st \<noteq> pegOutNotYet" using classify_not_NotYet [of "fst r"] by auto
    have n1: "snd (update_pegged_out (exports (snd r)) st t) = 1"
      using pending_row_count [OF pk sel] fr by simp
    have sw: "submit_and_write L c s t p asset tempID exporter = write_and_forward L (snd r) t p st"
      by (simp add: submit_and_write_def pm Return)
    from write_and_forward_outcome [OF n1, of L p]
    show ?thesis
    proof
      assume "exports (snd (write_and_forward L (snd r) t p st)) = exports (snd r) \<and>
          pegouts (snd (write_and_forward L (snd r) t p st)) = pegouts (snd r)"
      then show ?thesis using fr by (simp add: sw)
    next
      assume "exports (snd (write_and_forward L (snd r) t p st)) = fst (update_pegged_out (exports (snd r)) st t) \<and>
          pegouts (snd (write_and_forward L (snd r) t p st)) =
            (if st = pegOutOK \<or> st = pegOutFail then pegouts (snd r) @ [p\<lparr>State := st, TxID := t\<rparr>]
             else pegouts (snd r))"
      then have "exports (snd (submit_and_write L c s t p asset tempID exporter))
              = fst (update_pegged_out (exports s) st t) \<and>
            pegouts (snd (submit_and_write L c s t p asset tempID exporter)) =
              (if st = pegOutOK \<or> st = pegOutFail then pegouts s @ [p\<lparr>State := st, TxID := t\<rparr>]
               else pegouts s)"
        using fr by (simp add: sw)
      then show ?thesis using ne by blast
    qed
  qed (use pm fr in \<open>simp_all add: submit_and_write_def\<close>)
qed (simp_all add: submit_and_write_def)

lemma process_export_outcome:
  assumes pk: "distinct (map txid (exports s))"
    and sel: "(t, ref) \<in> set (select_exports (exports s) pegOutNotYet pegOutRetry)"
  shows "(exports (snd (process_export L c s (t, ref))) = exports s \<and>
          pegouts (snd (process_export L c s (t, ref))) = pegouts s) \<or>
         (\<exists>p st. json_Unmarshal L ref = Some p \<and> st \<noteq> pegOutNotYet \<and>
            exports (snd (process_export L c s (t, ref))) = fst (update_pegged_out (exports s) st t) \<and>
            pegouts (snd (process_export L c s (t, ref))) =
              (if st = pegOutOK \<or> st = pegOutFail then pegouts s @ [p\<lparr>State := st, TxID := t\<rparr>]
               else pegouts s))"
proof -
  have stop: "process_export L c s (t, ref) = (Fatal, s) \<or>
      (\<exists>p asset tempID exporter. json_Unmarshal L ref = Some p \<and>
         process_export L c s (t, ref) = submit_and_write L c s t p asset tempID exporter)"
    by (auto simp: process_export_def split: option.split)
  then show ?thesis
  proof (elim disjE exE conjE)
    assume "process_export L c s (t, ref) = (Fatal, s)"
    then show ?thesis by simp
  next
    fix p asset tempID exporter
    assume j: "json_Unmarshal L ref = Some p"
      and e: "process_export L c s (t, ref) = submit_and_write L c s t p asset tempID exporter"
    show ?thesis
      using submit_and_write_outcome [OF pk sel, of L c p asset tempID exporter] j
      unfolding e by blast
  qed
qed

text \<open>
  Claim C9. Let the engine process a selected row \<open>(t, ref)\<close> of a table keyed by
  the transaction id. If the row is in state ok or fail afterwards, exactly one
  record was sent on the channel: the decoded payload with that state and with
  \<open>t\<close> as its transaction id. If it is not (it is in state retry, or the engine
  ended before writing), nothing was sent. The sweep of \<^verbatim>\<open>watchPegOuts\<close> selects
  exactly the rows whose state is ok or fail.
\<close>

theorem forwarded_iff_ok_or_fail:
  assumes pk: "distinct (map txid (exports s))"
    and sel: "(t, ref) \<in> set (select_exports (exports s) pegOutNotYet pegOutRetry)"
    and run: "process_export L c s (t, ref) = (e, s')"
  shows "((\<exists>r\<in>set (exports s'). txid r = t \<and> (pegged_out r = pegOutOK \<or> pegged_out r = pegOutFail)) \<longrightarrow>
            (\<exists>p st. json_Unmarshal L ref = Some p \<and> (st = pegOutOK \<or> st = pegOutFail) \<and>
               (\<forall>r\<in>set (exports s'). txid r = t \<longrightarrow> pegged_out r = st) \<and>
               pegouts s' = pegouts s @ [p\<lparr>State := st, TxID := t\<rparr>]))
       \<and> (\<not> (\<exists>r\<in>set (exports s'). txid r = t \<and> (pegged_out r = pegOutOK \<or> pegged_out r = pegOutFail)) \<longrightarrow>
            pegouts s' = pegouts s)
       \<and> (\<forall>row. row \<in> set (watchPegOuts_sweep rows) \<longleftrightarrow>
            (\<exists>r\<in>set rows. row = (txid r, pegout_json r) \<and>
               (pegged_out r = pegOutOK \<or> pegged_out r = pegOutFail)))"
proof -
  let ?T = "\<exists>r\<in>set (exports s'). txid r = t \<and> (pegged_out r = pegOutOK \<or> pegged_out r = pegOutFail)"
  have s': "s' = snd (process_export L c s (t, ref))" using run by simp
  from selected_in_table [OF sel] obtain r0 where r0: "r0 \<in> set (exports s)" "txid r0 = t" by blast
  have main: "(?T \<longrightarrow>
            (\<exists>p st. json_Unmarshal L ref = Some p \<and> (st = pegOutOK \<or> st = pegOutFail) \<and>
               (\<forall>r\<in>set (exports s'). txid r = t \<longrightarrow> pegged_out r = st) \<and>
               pegouts s' = pegouts s @ [p\<lparr>State := st, TxID := t\<rparr>]))
       \<and> (\<not> ?T \<longrightarrow> pegouts s' = pegouts s)"
    using process_export_outcome [OF pk sel, of L c]
  proof (elim disjE exE conjE)
    assume u: "exports (snd (process_export L c s (t, ref))) = exports s"
      "pegouts (snd (process_export L c s (t, ref))) = pegouts s"
    have "\<not> ?T"
    proof
      assume ?T
      then obtain r where r: "r \<in> set (exports s')" "txid r = t"
        "pegged_out r = pegOutOK \<or> pegged_out r = pegOutFail" by blast
      have "r \<in> set (exports s)" using r(1) u(1) s' by simp
      from pending_rows_only [OF pk sel this r(2)] r(3) show False by auto
    qed
    then show ?thesis using u(2) s' by simp
  next
    fix p st
    assume w: "json_Unmarshal L ref = Some p" "st \<noteq> pegOutNotYet"
      "exports (snd (process_export L c s (t, ref))) = fst (update_pegged_out (exports s) st t)"
      "pegouts (snd (process_export L c s (t, ref))) =
         (if st = pegOutOK \<or> st = pegOutFail then pegouts s @ [p\<lparr>State := st, TxID := t\<rparr>] else pegouts s)"
    have all: "\<forall>r\<in>set (exports s'). txid r = t \<longrightarrow> pegged_out r = st"
      using state_after_update w(3) s' by metis
    have "r0\<lparr>pegged_out := st\<rparr> \<in> set (exports s')"
      using row_after_update [OF r0] w(3) s' by simp
    moreover have "txid (r0\<lparr>pegged_out := st\<rparr>) = t" "pegged_out (r0\<lparr>pegged_out := st\<rparr>) = st"
      using r0(2) by simp_all
    ultimately have T: "?T \<longleftrightarrow> (st = pegOutOK \<or> st = pegOutFail)"
      using all by metis
    show ?thesis
    proof (cases "st = pegOutOK \<or> st = pegOutFail")
      case True
      then have "pegouts s' = pegouts s @ [p\<lparr>State := st, TxID := t\<rparr>]" using w(4) s' by simp
      then show ?thesis using T True w(1) all by blast
    next
      case False
      then have "pegouts s' = pegouts s" using w(4) s' by simp
      then show ?thesis using T False by simp
    qed
  qed
  have sweep: "\<forall>row. row \<in> set (watchPegOuts_sweep rows) \<longleftrightarrow>
            (\<exists>r\<in>set rows. row = (txid r, pegout_json r) \<and>
               (pegged_out r = pegOutOK \<or> pegged_out r = pegOutFail))"
    by (auto simp: watchPegOuts_sweep_def select_exports_def)
  show ?thesis using main sweep by blast
qed

text \<open>
  The instance: the submission succeeds, the row is in state ok, and the record
  is sent with the transaction id of the row.
\<close>

theorem forwarded_iff_ok_or_fail_witness:
  "distinct (map txid (exports ex_engine)) \<and>
   ([116], ex_ref) \<in> set (select_exports (exports ex_engine) pegOutNotYet pegOutRetry) \<and>
   (\<exists>p st. json_Unmarshal (ex_libs None) ex_ref = Some p \<and> (st = pegOutOK \<or> st = pegOutFail) \<and>
      pegouts (snd (process_export (ex_libs None) ex_custodian ex_engine ([116], ex_ref)))
        = pegouts ex_engine @ [p\<lparr>State := st, TxID := [116]\<rparr>])"
proof -
  let ?s' = "snd (process_export (ex_libs None) ex_custodian ex_engine ([116], ex_ref))"
  have run: "process_export (ex_libs None) ex_custodian ex_engine ([116], ex_ref) = (Return (), ?s')"
    by (simp add: ex_process_ok)
  have T: "\<exists>r\<in>set (exports ?s'). txid r = [116] \<and> (pegged_out r = pegOutOK \<or> pegged_out r = pegOutFail)"
    by (simp add: ex_process_ok)
  from forwarded_iff_ok_or_fail [OF ex_distinct ex_selected run] T
  have "\<exists>p st. json_Unmarshal (ex_libs None) ex_ref = Some p \<and> (st = pegOutOK \<or> st = pegOutFail) \<and>
      (\<forall>r\<in>set (exports ?s'). txid r = [116] \<longrightarrow> pegged_out r = st) \<and>
      pegouts ?s' = pegouts ex_engine @ [p\<lparr>State := st, TxID := [116]\<rparr>]"
    by blast
  then have "\<exists>p st. json_Unmarshal (ex_libs None) ex_ref = Some p \<and> (st = pegOutOK \<or> st = pegOutFail) \<and>
      pegouts ?s' = pegouts ex_engine @ [p\<lparr>State := st, TxID := [116]\<rparr>]"
    by blast
  then show ?thesis using ex_distinct ex_selected by blast
qed

subsection \<open>An asset type the switch does not name\<close>

text \<open>
  Claim C10. For an asset whose type is none of native, credit-alphanum4 and
  credit-alphanum12, and addresses of the temporary account and of the exporter
  that are addresses, \<^verbatim>\<open>buildPegOutTx\<close> returns no error and does not panic,
  whatever the asset, the amount, the sequence number and the custodian's address
  are: it returns the transaction built from the account merge and the
  zero-valued payment builder, which is its second operation.
\<close>

theorem buildPegOutTx_unknown_asset_type:
  assumes "Type asset = AssetTypeOther k"
    and "\<not> bad_addr tempAddr" and "\<not> bad_addr exporterAddr"
  shows "buildPegOutTx addr bad_addr bad_amt custodianAddr exporterAddr tempAddr net asset amt seqnum =
           Return (Inr [Network net, SourceAccount tempAddr, Sequence (seqnum + 1), BaseFee 100,
                        AccountMerge [Destination exporterAddr], PaymentOp PaymentBuilder_zero])
       \<and> (\<forall>tx. buildPegOutTx addr bad_addr bad_amt custodianAddr exporterAddr tempAddr net asset amt seqnum
                 = Return (Inr tx) \<longrightarrow>
               operations tx = [AccountMerge [Destination exporterAddr], PaymentOp PaymentBuilder_zero])"
  using assms
  by (simp add: buildPegOutTx_def paymentOp_of_def Transaction_def baseFee_def operations_def Let_def)

text \<open>
  The instance: an asset of type 3, with a builder that takes the two addresses
  and no amount.
\<close>

theorem buildPegOutTx_unknown_asset_type_witness:
  "Type \<lparr>Type = AssetTypeOther 3, AlphaNum4 = None, AlphaNum12 = None\<rparr> = AssetTypeOther 3 \<and>
   buildPegOutTx (\<lambda>k. ''G'') (\<lambda>a. a \<noteq> ''GTEMP'' \<and> a \<noteq> ''GEXPORTER'') (\<lambda>m. True)
       ''GCUSTODIAN'' ''GEXPORTER'' ''GTEMP''
       ''Test Network'' \<lparr>Type = AssetTypeOther 3, AlphaNum4 = None, AlphaNum12 = None\<rparr> 50 7 =
     Return (Inr [Network ''Test Network'', SourceAccount ''GTEMP'', Sequence 8, BaseFee 100,
                  AccountMerge [Destination ''GEXPORTER''], PaymentOp PaymentBuilder_zero])"
proof -
  note th = buildPegOutTx_unknown_asset_type
    [where asset = "\<lparr>Type = AssetTypeOther 3, AlphaNum4 = None, AlphaNum12 = None\<rparr>" and k = 3
       and bad_addr = "\<lambda>a. a \<noteq> ''GTEMP'' \<and> a \<noteq> ''GEXPORTER''" and tempAddr = "''GTEMP''"
       and exporterAddr = "''GEXPORTER''" and addr = "\<lambda>k. ''G''" and bad_amt = "\<lambda>m. True"
       and custodianAddr = "''GCUSTODIAN''" and net = "''Test Network''" and amt = 50 and seqnum = 7]
  show ?thesis
    using th by simp
qed


section \<open>Properties of the export watcher\<close>








lemma export_log_at:
  "length (export_log d) = 5"
  "export_log d ! 0 = [Bytes [73], Bytes [5], Bytes [10]]"
  "export_log d ! 1 = [Bytes [76], Bytes [5], d]"
  "export_log d ! Suc 0 = [Bytes [76], Bytes [5], d]"
  "export_log d ! 2 = [Bytes [76], Bytes ex_seed, Bytes []]"
  "export_log d ! 3 = [Bytes [79], Bytes ex_seed, Bytes [11]]"
  by (simp_all add: export_log_def)


lemma ex_not_spec_shape: "\<not> spec_export_shape ex_consts (export_log d)"
  by (simp add: spec_export_shape_def export_log_def ex_consts_def entry_code_def bytes_at_def)



text \<open>
  Claim C7 fails on the code. A transaction whose log has the kinds of an export
  but whose second entry logs an integer is no export; the watcher does not skip
  it: the type assertion on the payload panics, and the handler ends with the
  panic.
\<close>

theorem int_payload_panics:
  "recognize_export (ex_libs None) ex_consts ex_int_payload_tx = Panicked \<and>
   watchExports_block (ex_libs None) ex_consts ([], 0) [ex_int_payload_tx] = (HandlerPanic, [], 0) \<and>
   \<not> spec_export_shape ex_consts (Log ex_int_payload_tx)"
proof -
  have r: "recognize_export (ex_libs None) ex_consts ex_int_payload_tx = Panicked"
    by (simp add: recognize_export_def check_seed_and_ref_def ex_int_payload_tx_def export_log_at ex_consts_def
        entry_code_def bytes_at_def Let_def)
  have n: "\<not> spec_export_shape ex_consts (Log ex_int_payload_tx)"
    by (simp add: ex_int_payload_tx_def ex_not_spec_shape)
  show ?thesis
    using n by (simp add: r)
qed

section \<open>Properties of the peg-in watcher\<close>

lemma update_observed_count: "snd (update_observed rows a x h) = length (unobserved h rows)"
  by (simp add: update_observed_def unobserved_def)

lemma nonce_update_observed: "map nonce_hash (fst (update_observed rows a x h)) = map nonce_hash rows"
  by (simp add: update_observed_def comp_def)

lemma unobserved_after_same: "unobserved h (fst (update_observed rows a x h)) = []"
  by (induction rows) (simp_all add: update_observed_def unobserved_def)

lemma unobserved_after_other:
  "h' \<noteq> h \<Longrightarrow> unobserved h (fst (update_observed rows a x h')) = unobserved h rows"
  by (induction rows) (simp_all add: update_observed_def unobserved_def)

lemma update_observed_none:
  "unobserved h rows = [] \<Longrightarrow> update_observed rows a x h = (rows, 0)"
proof -
  assume u: "unobserved h rows = []"
  then have "\<forall>r\<in>set rows. \<not> (nonce_hash r = h \<and> zioncoin_tx r = 0)"
    by (simp add: unobserved_def filter_empty_conv)
  then have "map (\<lambda>r. if nonce_hash r = h \<and> zioncoin_tx r = 0
                then r\<lparr>amount := a, asset_xdr := x, zioncoin_tx := 1\<rparr> else r) rows = rows"
    by (intro map_idI) auto
  then show ?thesis using u by (simp add: update_observed_def unobserved_def)
qed

lemma unobserved_le_one:
  "distinct (map nonce_hash rows) \<Longrightarrow> length (unobserved h rows) \<le> 1"
proof (induction rows)
  case Nil
  then show ?case by (simp add: unobserved_def)
next
  case (Cons r rows)
  show ?case
  proof (cases "nonce_hash r = h")
    case True
    then have "\<forall>x\<in>set rows. nonce_hash x \<noteq> h" using Cons.prems by (auto simp: image_iff)
    then have "unobserved h rows = []" by (simp add: unobserved_def filter_empty_conv)
    then show ?thesis by (simp add: unobserved_def)
  next
    case False
    then show ?thesis using Cons by (simp add: unobserved_def)
  qed
qed

lemma run_updates_Cons:
  "run_updates rows (u # us) =
     (snd (update_observed rows (fst u) (fst (snd u)) (snd (snd u))) #
        fst (run_updates (fst (update_observed rows (fst u) (fst (snd u)) (snd (snd u)))) us),
      snd (run_updates (fst (update_observed rows (fst u) (fst (snd u)) (snd (snd u)))) us))"
  by (simp add: Let_def)

lemma successes_Cons:
  "successes h (u # us) (n # counts) =
     (if snd (snd u) = h \<and> n \<noteq> 0 then n # successes h us counts else successes h us counts)"
  by (simp add: successes_def)

lemma successes_none:
  "unobserved h rows = [] \<Longrightarrow> successes h us (fst (run_updates rows us)) = []"
proof (induction us arbitrary: rows)
  case Nil
  then show ?case by (simp add: successes_def)
next
  case (Cons u us)
  let ?rows' = "fst (update_observed rows (fst u) (fst (snd u)) (snd (snd u)))"
  have keep: "unobserved h ?rows' = []"
    using Cons.prems unobserved_after_same [of h rows] unobserved_after_other [of "snd (snd u)" h rows]
    by (cases "snd (snd u) = h") simp_all
  have "snd (snd u) = h \<Longrightarrow> snd (update_observed rows (fst u) (fst (snd u)) (snd (snd u))) = 0"
    using Cons.prems by (simp add: update_observed_count)
  then show ?case
    using Cons.IH [OF keep] by (auto simp: run_updates_Cons successes_Cons simp del: run_updates.simps)
qed

lemma successes_at_most_one:
  "distinct (map nonce_hash rows) \<Longrightarrow>
     successes h us (fst (run_updates rows us)) = [] \<or> successes h us (fst (run_updates rows us)) = [1]"
proof (induction us arbitrary: rows)
  case Nil
  then show ?case by (simp add: successes_def)
next
  case (Cons u us)
  let ?r = "update_observed rows (fst u) (fst (snd u)) (snd (snd u))"
  have d: "distinct (map nonce_hash (fst ?r))" using Cons.prems by (simp add: nonce_update_observed)
  show ?case
  proof (cases "snd (snd u) = h")
    case True
    have "unobserved h (fst ?r) = []" using True unobserved_after_same by simp
    then have rest: "successes h us (fst (run_updates (fst ?r) us)) = []" by (rule successes_none)
    have "snd ?r \<le> 1" using unobserved_le_one [OF Cons.prems] True by (simp add: update_observed_count)
    then have "snd ?r = 0 \<or> snd ?r = 1" by arith
    then show ?thesis
      using rest by (auto simp: run_updates_Cons successes_Cons simp del: run_updates.simps)
  next
    case False
    then show ?thesis
      using Cons.IH [OF d] by (simp add: run_updates_Cons successes_Cons del: run_updates.simps)
  qed
qed

lemma successes_exactly_one:
  "distinct (map nonce_hash rows) \<Longrightarrow> unobserved h rows \<noteq> [] \<Longrightarrow> \<exists>u\<in>set us. snd (snd u) = h \<Longrightarrow>
     successes h us (fst (run_updates rows us)) = [1]"
proof (induction us arbitrary: rows)
  case Nil
  then show ?case by simp
next
  case (Cons u us)
  let ?r = "update_observed rows (fst u) (fst (snd u)) (snd (snd u))"
  have d: "distinct (map nonce_hash (fst ?r))" using Cons.prems(1) by (simp add: nonce_update_observed)
  show ?case
  proof (cases "snd (snd u) = h")
    case True
    have "unobserved h (fst ?r) = []" using True unobserved_after_same by simp
    then have rest: "successes h us (fst (run_updates (fst ?r) us)) = []" by (rule successes_none)
    have "length (unobserved h rows) \<le> 1" by (rule unobserved_le_one [OF Cons.prems(1)])
    then have "length (unobserved h rows) = 1"
      using Cons.prems(2) by (cases "unobserved h rows") auto
    then have "snd ?r = 1" using True by (simp add: update_observed_count)
    then show ?thesis
      using rest True by (simp add: run_updates_Cons successes_Cons del: run_updates.simps)
  next
    case False
    have u: "unobserved h (fst ?r) \<noteq> []"
      using False Cons.prems(2) by (simp add: unobserved_after_other)
    have "\<exists>u\<in>set us. snd (snd u) = h" using False Cons.prems(3) by auto
    from Cons.IH [OF d u this] show ?thesis
      using False by (simp add: run_updates_Cons successes_Cons del: run_updates.simps)
  qed
qed

subsection \<open>The conditional update succeeds at most once\<close>

text \<open>
  Claim C5. The table \<^verbatim>\<open>pegs\<close> has the nonce hash as its primary key. Take any
  sequence of executions of the conditional update, with any arguments (the
  executions of duplicate deliveries, also of deliveries that run at the same
  time, since the store executes one statement at a time). For every nonce hash,
  at most one of its executions affects a row, and that one affects exactly one
  row. If no row of the nonce hash is unobserved at the start (the flag of its row
  is already 1), none of the executions for it affects a row, and an execution
  leaves the table as it is. If a row of the nonce hash is unobserved at the start
  and the update is executed for it at least once, exactly one execution succeeds.
\<close>

theorem observed_update_at_most_once:
  assumes pk: "distinct (map nonce_hash rows)"
  shows "(successes h us (fst (run_updates rows us)) = [] \<or> successes h us (fst (run_updates rows us)) = [1])
    \<and> ((\<forall>r\<in>set rows. nonce_hash r = h \<longrightarrow> zioncoin_tx r \<noteq> 0) \<longrightarrow>
          successes h us (fst (run_updates rows us)) = [] \<and> update_observed rows a x h = (rows, 0))
    \<and> ((\<exists>r\<in>set rows. nonce_hash r = h \<and> zioncoin_tx r = 0) \<and> (\<exists>u\<in>set us. snd (snd u) = h) \<longrightarrow>
          successes h us (fst (run_updates rows us)) = [1])"
proof (intro conjI impI)
  show "successes h us (fst (run_updates rows us)) = [] \<or> successes h us (fst (run_updates rows us)) = [1]"
    by (rule successes_at_most_one [OF pk])
next
  assume "\<forall>r\<in>set rows. nonce_hash r = h \<longrightarrow> zioncoin_tx r \<noteq> 0"
  then have u: "unobserved h rows = []" by (auto simp: unobserved_def filter_empty_conv)
  show "successes h us (fst (run_updates rows us)) = []" by (rule successes_none [OF u])
  show "update_observed rows a x h = (rows, 0)" by (rule update_observed_none [OF u])
next
  assume a: "(\<exists>r\<in>set rows. nonce_hash r = h \<and> zioncoin_tx r = 0) \<and> (\<exists>u\<in>set us. snd (snd u) = h)"
  then have u: "unobserved h rows \<noteq> []" by (auto simp: unobserved_def filter_empty_conv)
  from a have e: "\<exists>u\<in>set us. snd (snd u) = h" by simp
  show "successes h us (fst (run_updates rows us)) = [1]"
    by (rule successes_exactly_one [OF pk u e])
qed

text \<open>
  The instance: the same payment delivered twice for the pending peg. The first
  execution affects one row, the second none.
\<close>

theorem observed_update_at_most_once_witness:
  "distinct (map nonce_hash ex_pegs) \<and>
   fst (run_updates ex_pegs [(50, [0, 0, 0, 0], [7]), (50, [0, 0, 0, 0], [7])]) = [1, 0] \<and>
   successes [7] [(50, [0, 0, 0, 0], [7]), (50, [0, 0, 0, 0], [7])]
     (fst (run_updates ex_pegs [(50, [0, 0, 0, 0], [7]), (50, [0, 0, 0, 0], [7])])) = [1]"
proof -
  have d: "distinct (map nonce_hash ex_pegs)" by (simp add: ex_pegs_def)
  have r: "\<exists>r\<in>set ex_pegs. nonce_hash r = [7] \<and> zioncoin_tx r = 0" by (simp add: ex_pegs_def)
  have c: "fst (run_updates ex_pegs [(50, [0, 0, 0, 0], [7]), (50, [0, 0, 0, 0], [7])]) = [1, 0]"
    by (simp add: ex_pegs_def update_observed_def Let_def)
  from observed_update_at_most_once [OF d, of "[7]" "[(50, [0, 0, 0, 0], [7]), (50, [0, 0, 0, 0], [7])]"] r
  have "successes [7] [(50, [0, 0, 0, 0], [7]), (50, [0, 0, 0, 0], [7])]
     (fst (run_updates ex_pegs [(50, [0, 0, 0, 0], [7]), (50, [0, 0, 0, 0], [7])])) = [1]"
    by simp
  then show ?thesis using d c by simp
qed

subsection \<open>Resumption and re-delivery\<close>

lemma pays_iff:
  "list_ex (pays a) ops \<longleftrightarrow> (\<exists>asset amt. PaymentOperation a asset amt \<in> set ops)"
proof (induction ops)
  case Nil
  then show ?case by simp
next
  case (Cons op ops)
  then show ?case by (cases op) auto
qed

lemma peg_of_Some:
  "peg_of P c tx = Some h \<longleftrightarrow>
     (\<exists>env. SafeUnmarshalBase64 P (EnvelopeXdr tx) = Some env \<and> Memo_of env = MemoHash h \<and>
        list_ex (pays (AccountID c)) (Operations env))"
  by (auto simp: peg_of_def split: option.splits Memo.splits)

lemma handle_operations_payment:
  "handle_operations P c pt h st (PaymentOperation dest asset amt # ops) =
     (if dest \<noteq> AccountID c then handle_operations P c pt h st ops
      else (case MarshalBinary P asset of
              None \<Rightarrow> (Fatal, st)
            | Some x \<Rightarrow>
                if update_pegs_fails P st amt x h then (Fatal, st)
                else if snd (update_observed (pegs st) amt x h) \<noteq> 1
                  then (Fatal, st\<lparr>pegs := fst (update_observed (pegs st) amt x h)\<rparr>)
                else if update_cursor_fails P (st\<lparr>pegs := fst (update_observed (pegs st) amt x h)\<rparr>) pt
                  then (Fatal, st\<lparr>pegs := fst (update_observed (pegs st) amt x h)\<rparr>)
                else handle_operations P c pt h
                       (st\<lparr>pegs := fst (update_observed (pegs st) amt x h),
                           custodian := update_cursor (custodian st) pt (seed c),
                           broadcasts := Suc (broadcasts st)\<rparr>) ops))"
  by (simp add: Let_def RowsAffected_def split: option.split)

lemma observed_kept:
  "unobserved h' rows = [] \<Longrightarrow> unobserved h' (fst (update_observed rows a x h)) = []"
  using unobserved_after_same [of h rows a x] unobserved_after_other [of h h' rows a x]
  by (cases "h = h'") simp_all

lemma peg_observed_kept:
  "peg_observed h' rows \<Longrightarrow> peg_observed h' (fst (update_observed rows a x h))"
  by (simp add: peg_observed_def nonce_update_observed observed_kept)

lemma peg_observed_by_update:
  assumes "snd (update_observed rows a x h) = 1"
  shows "peg_observed h (fst (update_observed rows a x h))"
proof -
  have "unobserved h rows \<noteq> []" using assms by (auto simp: update_observed_count)
  then obtain r where "r \<in> set rows" "nonce_hash r = h"
    by (auto simp: unobserved_def filter_empty_conv)
  then have "h \<in> set (map nonce_hash rows)" by auto
  then show ?thesis by (simp add: peg_observed_def nonce_update_observed unobserved_after_same)
qed

lemma handle_operations_keeps_observed:
  "peg_observed h' (pegs st) \<Longrightarrow>
     peg_observed h' (pegs (snd (handle_operations P c pt h st ops)))"
proof (induction ops arbitrary: st)
  case Nil
  then show ?case by simp
next
  case (Cons op ops)
  show ?case
  proof (cases op)
    case OtherOperation
    then show ?thesis using Cons by simp
  next
    case (PaymentOperation dest asset amt)
    show ?thesis
    proof (cases "dest = AccountID c")
      case False
      then show ?thesis using Cons PaymentOperation by (simp add: handle_operations_payment)
    next
      case True
      show ?thesis
      proof (cases "MarshalBinary P asset")
        case None
        then show ?thesis using Cons.prems PaymentOperation True by (simp add: handle_operations_payment)
      next
        case (Some x)
        let ?st1 = "st\<lparr>pegs := fst (update_observed (pegs st) amt x h)\<rparr>"
        let ?st2 = "st\<lparr>pegs := fst (update_observed (pegs st) amt x h),
                       custodian := update_cursor (custodian st) pt (seed c),
                       broadcasts := Suc (broadcasts st)\<rparr>"
        have k1: "peg_observed h' (pegs ?st1)" using Cons.prems by (simp add: peg_observed_kept)
        have k2: "peg_observed h' (pegs ?st2)" using Cons.prems by (simp add: peg_observed_kept)
        have k3: "peg_observed h' (pegs (snd (handle_operations P c pt h ?st2 ops)))"
          by (rule Cons.IH [OF k2])
        show ?thesis
          unfolding PaymentOperation handle_operations_payment
          using True Some Cons.prems k1 k3 by simp
      qed
    qed
  qed
qed

lemma handle_operations_observed:
  "handle_operations P c pt h st ops = (Return (), st') \<Longrightarrow>
     peg_observed h (pegs st) \<or> list_ex (pays (AccountID c)) ops \<Longrightarrow>
     peg_observed h (pegs st')"
proof (induction ops arbitrary: st)
  case Nil
  then show ?case by simp
next
  case (Cons op ops)
  show ?case
  proof (cases op)
    case OtherOperation
    then show ?thesis using Cons by simp
  next
    case (PaymentOperation dest asset amt)
    show ?thesis
    proof (cases "dest = AccountID c")
      case False
      then show ?thesis using Cons PaymentOperation by (simp add: handle_operations_payment)
    next
      case True
      show ?thesis
      proof (cases "MarshalBinary P asset")
        case None
        then show ?thesis using Cons.prems(1) PaymentOperation True by (simp add: handle_operations_payment)
      next
        case (Some x)
        let ?st2 = "st\<lparr>pegs := fst (update_observed (pegs st) amt x h),
                       custodian := update_cursor (custodian st) pt (seed c),
                       broadcasts := Suc (broadcasts st)\<rparr>"
        have both: "snd (update_observed (pegs st) amt x h) = 1 \<and>
            handle_operations P c pt h ?st2 ops = (Return (), st')"
          using Cons.prems(1) True Some unfolding PaymentOperation handle_operations_payment
          by (simp split: if_splits)
        then have run: "handle_operations P c pt h ?st2 ops = (Return (), st')" by simp
        have u: "peg_observed h (pegs ?st2)"
          using peg_observed_by_update [of "pegs st" amt x h] both by simp
        show ?thesis using Cons.IH [OF run] u by simp
      qed
    qed
  qed
qed

lemma handle_operations_fatal:
  "unobserved h (pegs st) = [] \<Longrightarrow> list_ex (pays (AccountID c)) ops \<Longrightarrow>
     handle_operations P c pt h st ops = (Fatal, st)"
proof (induction ops)
  case Nil
  then show ?case by simp
next
  case (Cons op ops)
  show ?case
  proof (cases op)
    case OtherOperation
    then show ?thesis using Cons by simp
  next
    case (PaymentOperation dest asset amt)
    show ?thesis
    proof (cases "dest = AccountID c")
      case False
      then show ?thesis using Cons PaymentOperation by (simp add: handle_operations_payment)
    next
      case True
      have z: "\<And>x. update_observed (pegs st) amt x h = (pegs st, 0)"
        by (rule update_observed_none [OF Cons.prems(1)])
      show ?thesis
        unfolding PaymentOperation handle_operations_payment
        using True by (simp add: z split: option.split)
    qed
  qed
qed

lemma handler_keeps_observed:
  "peg_observed h (pegs st) \<Longrightarrow> peg_observed h (pegs (snd (watchPegIns_handler P c st tx)))"
  by (simp add: watchPegIns_handler_def handle_operations_keeps_observed split: option.split Memo.split)

lemma handler_observes:
  "watchPegIns_handler P c st tx = (Return (), st') \<Longrightarrow> peg_of P c tx = Some h \<Longrightarrow>
     peg_observed h (pegs st')"
proof -
  assume run: "watchPegIns_handler P c st tx = (Return (), st')" and peg: "peg_of P c tx = Some h"
  from peg obtain env where env: "SafeUnmarshalBase64 P (EnvelopeXdr tx) = Some env"
      "Memo_of env = MemoHash h" "list_ex (pays (AccountID c)) (Operations env)"
    unfolding peg_of_Some by blast
  have "handle_operations P c (PT tx) h st (Operations env) = (Return (), st')"
    using run env(1,2) by (simp add: watchPegIns_handler_def)
  from handle_operations_observed [OF this] env(3) show ?thesis by simp
qed

lemma handler_fatal:
  "peg_of P c tx = Some h \<Longrightarrow> unobserved h (pegs st) = [] \<Longrightarrow>
     watchPegIns_handler P c st tx = (Fatal, st)"
proof -
  assume peg: "peg_of P c tx = Some h" and obs: "unobserved h (pegs st) = []"
  from peg obtain env where env: "SafeUnmarshalBase64 P (EnvelopeXdr tx) = Some env"
      "Memo_of env = MemoHash h" "list_ex (pays (AccountID c)) (Operations env)"
    unfolding peg_of_Some by blast
  show ?thesis
    using handle_operations_fatal [OF obs env(3)] env(1,2) by (simp add: watchPegIns_handler_def)
qed

lemma deliver_Cons:
  "deliver P c st (tx # txs) =
     (if fst (watchPegIns_handler P c st tx) = Return ()
      then deliver P c (snd (watchPegIns_handler P c st tx)) txs
      else (fst (watchPegIns_handler P c st tx), snd (watchPegIns_handler P c st tx)))"
proof (cases "watchPegIns_handler P c st tx")
  case (Pair r st1)
  then show ?thesis by (cases r) simp_all
qed

lemma deliver_keeps_observed:
  "peg_observed h (pegs st) \<Longrightarrow> peg_observed h (pegs (snd (deliver P c st txs)))"
proof (induction txs arbitrary: st)
  case Nil
  then show ?case by simp
next
  case (Cons tx txs)
  have k: "peg_observed h (pegs (snd (watchPegIns_handler P c st tx)))"
    by (rule handler_keeps_observed [OF Cons.prems])
  show ?case
    using Cons.IH [OF k] k by (simp add: deliver_Cons del: deliver.simps)
qed

lemma deliver_observes:
  "deliver P c st txs = (Return (), st') \<Longrightarrow> tx \<in> set txs \<Longrightarrow> peg_of P c tx = Some h \<Longrightarrow>
     peg_observed h (pegs st')"
proof (induction txs arbitrary: st)
  case Nil
  then show ?case by simp
next
  case (Cons a txs)
  let ?st1 = "snd (watchPegIns_handler P c st a)"
  have r: "fst (watchPegIns_handler P c st a) = Return ()"
    using Cons.prems(1) by (simp add: deliver_Cons del: deliver.simps split: if_splits)
  then have rest: "deliver P c ?st1 txs = (Return (), st')"
    using Cons.prems(1) by (simp add: deliver_Cons del: deliver.simps)
  show ?case
  proof (cases "tx = a")
    case True
    have "watchPegIns_handler P c st a = (Return (), ?st1)" using r by (simp add: prod_eq_iff)
    from handler_observes [OF this] Cons.prems(3) True
    have "peg_observed h (pegs ?st1)" by simp
    from deliver_keeps_observed [OF this, of P c txs] rest show ?thesis by simp
  next
    case False
    then have "tx \<in> set txs" using Cons.prems(2) by simp
    from Cons.IH [OF rest this Cons.prems(3)] show ?thesis .
  qed
qed

lemma loop_Suc:
  "watchPegIns_loop P c stream (Suc n) i cur st =
     (if fst (deliver P c st (delivered (stream i cur))) = Fatal
        then (FatalExit, [StreamCall cur (delivered (stream i cur))],
              snd (deliver P c st (delivered (stream i cur))))
      else if fst (deliver P c st (delivered (stream i cur))) = Panicked
        then (PanicExit, [StreamCall cur (delivered (stream i cur))],
              snd (deliver P c st (delivered (stream i cur))))
      else if ended (stream i cur) = StreamCanceled
        then (Exited, [StreamCall cur (delivered (stream i cur))],
              snd (deliver P c st (delivered (stream i cur))))
      else if done_in_backoff (stream i cur)
        then (Exited, [StreamCall cur (delivered (stream i cur)), Sleep i],
              snd (deliver P c st (delivered (stream i cur))))
      else (fst (watchPegIns_loop P c stream n (Suc i) (cursor_left (stream i cur))
                   (snd (deliver P c st (delivered (stream i cur))))),
            StreamCall cur (delivered (stream i cur)) # Sleep i #
              fst (snd (watchPegIns_loop P c stream n (Suc i) (cursor_left (stream i cur))
                   (snd (deliver P c st (delivered (stream i cur)))))),
            snd (snd (watchPegIns_loop P c stream n (Suc i) (cursor_left (stream i cur))
                   (snd (deliver P c st (delivered (stream i cur))))))))"
proof (cases "deliver P c st (delivered (stream i cur))")
  case (Pair r st1)
  then show ?thesis by (cases r) (simp_all add: Let_def)
qed

lemma loop_keeps_observed:
  "peg_observed h (pegs st) \<Longrightarrow>
     peg_observed h (pegs (snd (snd (watchPegIns_loop P c stream n i cur st))))"
proof (induction n arbitrary: i cur st)
  case 0
  then show ?case by simp
next
  case (Suc n)
  have k: "peg_observed h (pegs (snd (deliver P c st (delivered (stream i cur)))))"
    by (rule deliver_keeps_observed [OF Suc.prems])
  show ?case
    using Suc.IH [OF k] k by (simp add: loop_Suc del: watchPegIns_loop.simps)
qed

lemma loop_observes:
  "watchPegIns_loop P c stream n i cur st = (e, tr, st') \<Longrightarrow> e = Exited \<or> e = StillRunning \<Longrightarrow>
     StreamCall cur' txs \<in> set tr \<Longrightarrow> tx \<in> set txs \<Longrightarrow> peg_of P c tx = Some h \<Longrightarrow>
     peg_observed h (pegs st')"
proof (induction n arbitrary: i cur st e tr st')
  case 0
  then show ?case by simp
next
  case (Suc n)
  let ?call = "stream i cur"
  let ?d = "deliver P c st (delivered ?call)"
  let ?rest = "watchPegIns_loop P c stream n (Suc i) (cursor_left ?call) (snd ?d)"
  have nf: "fst ?d \<noteq> Fatal" "fst ?d \<noteq> Panicked"
    using Suc.prems(1,2) by (auto simp: loop_Suc simp del: watchPegIns_loop.simps split: if_splits)
  then have ret: "?d = (Return (), snd ?d)"
    by (cases "fst ?d") (simp_all add: prod_eq_iff)
  have here: "peg_observed h (pegs (snd ?d))" if "txs = delivered ?call"
    using deliver_observes [OF ret _ Suc.prems(5)] Suc.prems(4) that by simp
  show ?case
  proof (cases "ended ?call = StreamCanceled \<or> done_in_backoff ?call")
    case True
    then have "st' = snd ?d" and "StreamCall cur' txs = StreamCall cur (delivered ?call)"
      using Suc.prems(1,3) nf by (auto simp: loop_Suc simp del: watchPegIns_loop.simps split: if_splits)
    then show ?thesis using here by simp
  next
    case False
    then have e: "e = fst ?rest" and tr: "tr = StreamCall cur (delivered ?call) # Sleep i # fst (snd ?rest)"
      and st': "st' = snd (snd ?rest)"
      using Suc.prems(1) nf by (simp_all add: loop_Suc del: watchPegIns_loop.simps)
    from Suc.prems(3) tr
    have "StreamCall cur' txs = StreamCall cur (delivered ?call) \<or> StreamCall cur' txs \<in> set (fst (snd ?rest))"
      by auto
    then show ?thesis
    proof
      assume "StreamCall cur' txs = StreamCall cur (delivered ?call)"
      then have "peg_observed h (pegs (snd ?d))" using here by simp
      from loop_keeps_observed [OF this] show ?thesis using st' by simp
    next
      assume m: "StreamCall cur' txs \<in> set (fst (snd ?rest))"
      have r: "?rest = (e, fst (snd ?rest), st')" using e st' by (simp add: prod_eq_iff)
      from Suc.IH [OF r Suc.prems(2) m Suc.prems(4,5)] show ?thesis .
    qed
  qed
qed

lemma loop_schedule:
  "\<exists>rest. schedule stream n i cur = fst (snd (watchPegIns_loop P c stream n i cur st)) @ rest"
proof (induction n arbitrary: i cur st)
  case 0
  then show ?case by simp
next
  case (Suc n)
  from Suc.IH [of "Suc i" "cursor_left (stream i cur)" "snd (deliver P c st (delivered (stream i cur)))"]
  obtain rest where "schedule stream n (Suc i) (cursor_left (stream i cur)) =
      fst (snd (watchPegIns_loop P c stream n (Suc i) (cursor_left (stream i cur))
                  (snd (deliver P c st (delivered (stream i cur)))))) @ rest"
    by blast
  then show ?case by (simp add: loop_Suc del: watchPegIns_loop.simps)
qed

lemma loop_still_running:
  "fst (watchPegIns_loop P c stream n i cur st) = StillRunning \<Longrightarrow>
     fst (snd (watchPegIns_loop P c stream n i cur st)) = schedule stream n i cur"
proof (induction n arbitrary: i cur st)
  case 0
  then show ?case by simp
next
  case (Suc n)
  then show ?case by (simp add: loop_Suc del: watchPegIns_loop.simps split: if_splits)
qed

lemma loop_exited:
  "fst (watchPegIns_loop P c stream n i cur st) = Exited \<Longrightarrow>
     \<exists>k cur'. StreamCall cur' (delivered (stream k cur'))
                 \<in> set (fst (snd (watchPegIns_loop P c stream n i cur st))) \<and>
              (ended (stream k cur') = StreamCanceled \<or> done_in_backoff (stream k cur'))"
proof (induction n arbitrary: i cur st)
  case 0
  then show ?case by simp
next
  case (Suc n)
  let ?d = "deliver P c st (delivered (stream i cur))"
  let ?rest = "watchPegIns_loop P c stream n (Suc i) (cursor_left (stream i cur)) (snd ?d)"
  show ?case
  proof (cases "ended (stream i cur) = StreamCanceled \<or> done_in_backoff (stream i cur)")
    case True
    have "StreamCall cur (delivered (stream i cur))
            \<in> set (fst (snd (watchPegIns_loop P c stream (Suc n) i cur st)))"
      by (simp add: loop_Suc del: watchPegIns_loop.simps)
    then show ?thesis using True by blast
  next
    case False
    then have r: "fst ?rest = Exited"
      using Suc.prems by (simp add: loop_Suc del: watchPegIns_loop.simps split: if_splits)
    from Suc.IH [OF r] obtain k cur' where
      m: "StreamCall cur' (delivered (stream k cur')) \<in> set (fst (snd ?rest))"
      and e: "ended (stream k cur') = StreamCanceled \<or> done_in_backoff (stream k cur')"
      by blast
    have nf: "fst ?d \<noteq> Fatal" "fst ?d \<noteq> Panicked"
      using Suc.prems by (auto simp: loop_Suc simp del: watchPegIns_loop.simps split: if_splits)
    have "StreamCall cur' (delivered (stream k cur'))
            \<in> set (fst (snd (watchPegIns_loop P c stream (Suc n) i cur st)))"
      using m False nf by (simp add: loop_Suc del: watchPegIns_loop.simps)
    then show ?thesis using e by blast
  qed
qed

lemma loop_fatal:
  "fst (watchPegIns_loop P c stream n i cur st) = FatalExit \<Longrightarrow>
     \<exists>k cur' st1. fst (deliver P c st1 (delivered (stream k cur'))) = Fatal"
proof (induction n arbitrary: i cur st)
  case 0
  then show ?case by simp
next
  case (Suc n)
  let ?d = "deliver P c st (delivered (stream i cur))"
  let ?rest = "watchPegIns_loop P c stream n (Suc i) (cursor_left (stream i cur)) (snd ?d)"
  show ?case
  proof (cases "fst ?d = Fatal")
    case True
    then show ?thesis by blast
  next
    case False
    then have "fst ?rest = FatalExit"
      using Suc.prems by (simp add: loop_Suc del: watchPegIns_loop.simps split: if_splits)
    from Suc.IH [OF this] show ?thesis .
  qed
qed

lemma handle_operations_no_panic:
  "fst (handle_operations P c pt h st ops) \<noteq> Panicked"
proof (induction ops arbitrary: st)
  case Nil
  then show ?case by simp
next
  case (Cons op ops)
  show ?case
  proof (cases op)
    case OtherOperation
    then show ?thesis using Cons by simp
  next
    case (PaymentOperation dest asset amt)
    show ?thesis
      unfolding PaymentOperation handle_operations_payment
      using Cons by (simp split: option.split)
  qed
qed

lemma handler_no_panic: "fst (watchPegIns_handler P c st tx) \<noteq> Panicked"
  by (simp add: watchPegIns_handler_def handle_operations_no_panic split: option.split Memo.split)

lemma deliver_no_panic: "fst (deliver P c st txs) \<noteq> Panicked"
proof (induction txs arbitrary: st)
  case Nil
  then show ?case by simp
next
  case (Cons tx txs)
  then show ?case using handler_no_panic [of P c st tx] by (simp add: deliver_Cons del: deliver.simps)
qed

lemma loop_no_panic: "fst (watchPegIns_loop P c stream n i cur st) \<noteq> PanicExit"
proof (induction n arbitrary: i cur st)
  case 0
  then show ?case by simp
next
  case (Suc n)
  then show ?case
    using deliver_no_panic [of P c st "delivered (stream i cur)"]
    by (simp add: loop_Suc del: watchPegIns_loop.simps)
qed

lemma ex_peg_of:
  "peg_of ex_pegin_libs ex_custodian ex_tx = Some [7]"
  "peg_of ex_pegin_libs ex_custodian ex_tx_8 = Some [8]"
  by (simp_all add: peg_of_def ex_pegin_libs_def ex_tx_def ex_tx_8_def ex_envelope_def ex_envelope_8_def
      ex_custodian_def)

lemma ex_first_delivery:
  "watchPegIns_handler ex_pegin_libs ex_custodian ex_store ex_tx = (Return (), ex_observed)"
  by (simp add: watchPegIns_handler_def ex_pegin_libs_def ex_tx_def ex_envelope_def ex_custodian_def
      ex_store_def ex_pegs_def ex_observed_def update_observed_def update_cursor_def RowsAffected_def
      Let_def)

lemma ex_other_delivery:
  "watchPegIns_handler ex_pegin_libs ex_custodian st ex_tx_other = (Return (), st)"
  by (simp add: watchPegIns_handler_def ex_pegin_libs_def ex_tx_other_def ex_envelope_other_def)

lemma ex_observed_7:
  "unobserved [7] (pegs ex_observed) = []"
  "unobserved [7] (pegs ex_observed_and_pending) = []"
  by (simp_all add: unobserved_def ex_observed_def ex_observed_and_pending_def)

lemma ex_cursors:
  "persisted_cursor ex_store = ''''"
  "persisted_cursor ex_observed = ''12''"
  "persisted_cursor ex_observed_and_pending = ''12''"
  "\<not> select_cursor_fails ex_pegin_libs st"
  by (simp_all add: persisted_cursor_def ex_store_def ex_observed_def ex_observed_and_pending_def
      ex_pegin_libs_def)

lemma ex_run_advancing:
  "watchPegIns ex_pegin_libs ex_custodian ex_stream_advancing 2 ex_store =
     (StillRunning,
      [StreamCall '''' [ex_tx, ex_tx_other], Sleep 0, StreamCall ''13'' [], Sleep 1],
      ex_observed)"
proof -
  have two: "(2::nat) = Suc (Suc 0)" by simp
  show ?thesis
    unfolding watchPegIns_def two
    by (simp add: ex_cursors ex_stream_advancing_def ex_first_delivery ex_other_delivery Let_def)
qed

text \<open>
  Claim C6, as amended. Re-delivery: when a peg transaction (a hash memo and a
  payment to the custodian) is delivered while no row of its nonce hash is
  unobserved (its peg was observed before), the conditional update affects no row
  and the callback ends the process with a fatal error, the store as it was: no
  row of \<^verbatim>\<open>pegs\<close> changes, the cursor is not written, nothing is broadcast.
  Resumption: what the watcher does is an initial part of this sequence, and the
  whole of it for as long as the watcher is running: a call of the stream with
  the cursor read from the table \<^verbatim>\<open>custodian\<close> at the start, the first wait of
  the backoff, a call with the cursor variable as the first call left it, the
  second wait of the backoff, and so on. An error of the stream does not end the
  watcher: it exits only after a call that ended by cancellation or whose wait
  was cut by cancellation, it ends with a fatal error only when the callback
  does on a transaction delivered (or the query of the cursor fails), and it
  does not panic. No peg is
  missed short of a fatal end: when the watcher has been cancelled or is still
  running, the peg of every peg transaction that a call of the stream delivered
  is observed.
\<close>

theorem pegin_resume:
  assumes peg: "peg_of P c tx = Some h"
    and obs: "unobserved h (pegs st) = []"
  shows "watchPegIns_handler P c st tx = (Fatal, st)
     \<and> (\<forall>amt assetXDR. update_observed (pegs st) amt assetXDR h = (pegs st, 0))
     \<and> (\<forall>stream n st0. \<exists>rest. schedule stream n 0 (persisted_cursor st0)
                                  = fst (snd (watchPegIns P c stream n st0)) @ rest)
     \<and> (\<forall>stream n st0. fst (watchPegIns P c stream n st0) = StillRunning \<longrightarrow>
          fst (snd (watchPegIns P c stream n st0)) = schedule stream n 0 (persisted_cursor st0))
     \<and> (\<forall>stream n st0. fst (watchPegIns P c stream n st0) = Exited \<longrightarrow>
          (\<exists>k cur. StreamCall cur (delivered (stream k cur))
                      \<in> set (fst (snd (watchPegIns P c stream n st0))) \<and>
                   (ended (stream k cur) = StreamCanceled \<or> done_in_backoff (stream k cur))))
     \<and> (\<forall>stream n st0. fst (watchPegIns P c stream n st0) = FatalExit \<longrightarrow>
          select_cursor_fails P st0 \<or>
          (\<exists>k cur st1. fst (deliver P c st1 (delivered (stream k cur))) = Fatal))
     \<and> (\<forall>stream n st0. fst (watchPegIns P c stream n st0) \<noteq> PanicExit)
     \<and> (\<forall>stream n st0 e tr st' cur txs tx' h'.
          watchPegIns P c stream n st0 = (e, tr, st') \<and> (e = Exited \<or> e = StillRunning) \<and>
          StreamCall cur txs \<in> set tr \<and> tx' \<in> set txs \<and> peg_of P c tx' = Some h' \<longrightarrow>
          peg_observed h' (pegs st'))"
proof (intro conjI allI impI)
  show "watchPegIns_handler P c st tx = (Fatal, st)"
    by (rule handler_fatal [OF peg obs])
next
  fix amt assetXDR
  show "update_observed (pegs st) amt assetXDR h = (pegs st, 0)"
    by (rule update_observed_none [OF obs])
next
  fix stream :: "nat \<Rightarrow> string \<Rightarrow> stream_call" and n st0
  show "\<exists>rest. schedule stream n 0 (persisted_cursor st0)
                    = fst (snd (watchPegIns P c stream n st0)) @ rest"
    using loop_schedule [of stream n 0 "persisted_cursor st0" P c st0] by (simp add: watchPegIns_def)
next
  fix stream :: "nat \<Rightarrow> string \<Rightarrow> stream_call" and n st0
  assume "fst (watchPegIns P c stream n st0) = StillRunning"
  then show "fst (snd (watchPegIns P c stream n st0)) = schedule stream n 0 (persisted_cursor st0)"
    using loop_still_running [of P c stream n 0 "persisted_cursor st0" st0]
    by (simp add: watchPegIns_def split: if_splits)
next
  fix stream :: "nat \<Rightarrow> string \<Rightarrow> stream_call" and n st0
  assume "fst (watchPegIns P c stream n st0) = Exited"
  then show "\<exists>k cur. StreamCall cur (delivered (stream k cur))
                      \<in> set (fst (snd (watchPegIns P c stream n st0))) \<and>
                   (ended (stream k cur) = StreamCanceled \<or> done_in_backoff (stream k cur))"
    using loop_exited [of P c stream n 0 "persisted_cursor st0" st0]
    by (simp add: watchPegIns_def split: if_splits)
next
  fix stream :: "nat \<Rightarrow> string \<Rightarrow> stream_call" and n st0
  assume "fst (watchPegIns P c stream n st0) = FatalExit"
  then show "select_cursor_fails P st0 \<or>
          (\<exists>k cur st1. fst (deliver P c st1 (delivered (stream k cur))) = Fatal)"
    using loop_fatal [of P c stream n 0 "persisted_cursor st0" st0]
    by (simp add: watchPegIns_def split: if_splits)
next
  fix stream :: "nat \<Rightarrow> string \<Rightarrow> stream_call" and n st0
  show "fst (watchPegIns P c stream n st0) \<noteq> PanicExit"
    using loop_no_panic [of P c stream n 0 "persisted_cursor st0" st0] by (simp add: watchPegIns_def)
next
  fix stream :: "nat \<Rightarrow> string \<Rightarrow> stream_call" and n st0 e tr st' cur txs tx' h'
  assume a: "watchPegIns P c stream n st0 = (e, tr, st') \<and> (e = Exited \<or> e = StillRunning) \<and>
          StreamCall cur txs \<in> set tr \<and> tx' \<in> set txs \<and> peg_of P c tx' = Some h'"
  then have "watchPegIns_loop P c stream n 0 (persisted_cursor st0) st0 = (e, tr, st')"
    by (auto simp: watchPegIns_def split: if_splits)
  from loop_observes [OF this] a show "peg_observed h' (pegs st')" by blast
qed

text \<open>
  The instance: the payment for the peg of hash 7 is delivered again after the
  peg was observed; and a run of two calls of the stream that is still going on,
  in which that payment was delivered once.
\<close>

theorem pegin_resume_witness:
  "peg_of ex_pegin_libs ex_custodian ex_tx = Some [7] \<and>
   unobserved [7] (pegs ex_observed) = [] \<and>
   watchPegIns_handler ex_pegin_libs ex_custodian ex_observed ex_tx = (Fatal, ex_observed) \<and>
   fst (snd (watchPegIns ex_pegin_libs ex_custodian ex_stream_advancing 2 ex_store))
     = schedule ex_stream_advancing 2 0 (persisted_cursor ex_store) \<and>
   peg_observed [7] (pegs ex_observed)"
proof -
  note th = pegin_resume [OF ex_peg_of(1) ex_observed_7(1)]
  have 1: "watchPegIns_handler ex_pegin_libs ex_custodian ex_observed ex_tx = (Fatal, ex_observed)"
    using th by (rule conjunct1)
  have r: "fst (watchPegIns ex_pegin_libs ex_custodian ex_stream_advancing 2 ex_store) = StillRunning"
    by (simp add: ex_run_advancing)
  have 2: "fst (snd (watchPegIns ex_pegin_libs ex_custodian ex_stream_advancing 2 ex_store))
     = schedule ex_stream_advancing 2 0 (persisted_cursor ex_store)"
    using th [THEN conjunct2, THEN conjunct2, THEN conjunct2, THEN conjunct1] r by blast
  have m: "StreamCall '''' [ex_tx, ex_tx_other] \<in>
      set [StreamCall '''' [ex_tx, ex_tx_other], Sleep 0, StreamCall ''13'' [], Sleep 1]"
    "ex_tx \<in> set [ex_tx, ex_tx_other]"
    by simp_all
  have 3: "peg_observed [7] (pegs ex_observed)"
    using th [THEN conjunct2, THEN conjunct2, THEN conjunct2, THEN conjunct2, THEN conjunct2,
        THEN conjunct2, THEN conjunct2] ex_run_advancing m ex_peg_of(1)
    by blast
  show ?thesis using ex_peg_of(1) ex_observed_7(1) 1 2 3 by simp
qed

text \<open>
  Claim C6 as stated fails, three times. The zero-row outcome is not tolerated:
  the first stream delivers the payment for the pending peg and ends with an
  error; the watcher waits and calls it again, the payment is delivered again,
  and the watcher ends with a fatal error, the peg observed once. The watcher does
  not resume from the last persisted cursor: in that run the table holds the
  cursor 12 when the second call is made with the empty cursor the first call
  left in the variable, and with the second stream, which moves the variable to
  the last transaction it delivered, the second call is made with the cursor 13.
  And a peg is missed: the third stream delivers the payment of the observed peg
  and then the payment of a pending one, and the watcher ends with a fatal error
  on the first, the second peg unobserved.
\<close>

theorem redelivery_not_tolerated_counterexample:
  "watchPegIns ex_pegin_libs ex_custodian ex_stream 2 ex_store
     = (FatalExit, [StreamCall '''' [ex_tx], Sleep 0, StreamCall '''' [ex_tx]], ex_observed) \<and>
   persisted_cursor ex_observed = ''12'' \<and>
   watchPegIns ex_pegin_libs ex_custodian ex_stream_advancing 2 ex_store
     = (StillRunning, [StreamCall '''' [ex_tx, ex_tx_other], Sleep 0, StreamCall ''13'' [], Sleep 1],
        ex_observed) \<and>
   watchPegIns ex_pegin_libs ex_custodian ex_stream_two_pegs 1 ex_observed_and_pending
     = (FatalExit, [StreamCall ''12'' [ex_tx, ex_tx_8]], ex_observed_and_pending) \<and>
   peg_of ex_pegin_libs ex_custodian ex_tx_8 = Some [8] \<and>
   unobserved [8] (pegs ex_observed_and_pending)
     = [\<lparr>nonce_hash = [8], amount = 0, asset_xdr = [], zioncoin_tx = 0\<rparr>]"
proof (intro conjI)
  have second: "\<And>st. unobserved [7] (pegs st) = [] \<Longrightarrow>
      watchPegIns_handler ex_pegin_libs ex_custodian st ex_tx = (Fatal, st)"
    by (rule handler_fatal [OF ex_peg_of(1)])
  have two: "(2::nat) = Suc (Suc 0)" by simp
  show "watchPegIns ex_pegin_libs ex_custodian ex_stream 2 ex_store
     = (FatalExit, [StreamCall '''' [ex_tx], Sleep 0, StreamCall '''' [ex_tx]], ex_observed)"
    unfolding watchPegIns_def two
    by (simp add: ex_cursors ex_stream_def ex_first_delivery second [OF ex_observed_7(1)] Let_def)
  show "persisted_cursor ex_observed = ''12''" by (rule ex_cursors)
  show "watchPegIns ex_pegin_libs ex_custodian ex_stream_advancing 2 ex_store
     = (StillRunning, [StreamCall '''' [ex_tx, ex_tx_other], Sleep 0, StreamCall ''13'' [], Sleep 1],
        ex_observed)"
    by (rule ex_run_advancing)
  show "watchPegIns ex_pegin_libs ex_custodian ex_stream_two_pegs 1 ex_observed_and_pending
     = (FatalExit, [StreamCall ''12'' [ex_tx, ex_tx_8]], ex_observed_and_pending)"
    unfolding watchPegIns_def One_nat_def
    by (simp add: ex_cursors ex_stream_two_pegs_def second [OF ex_observed_7(2)] Let_def)
  show "peg_of ex_pegin_libs ex_custodian ex_tx_8 = Some [8]" by (rule ex_peg_of)
  show "unobserved [8] (pegs ex_observed_and_pending)
     = [\<lparr>nonce_hash = [8], amount = 0, asset_xdr = [], zioncoin_tx = 0\<rparr>]"
    by (simp add: unobserved_def ex_observed_and_pending_def)
qed


end
